theory Spec2Isabelle
  imports Main "HOL-Library.Word" "HOL-Library.AList" "HOL-Library.Multiset" "HOL-Library.Sublist"
begin

section \<open>m3u8-downloader: the segment acquisition pipeline of \<open>m3u8_downloader/main.py\<close>\<close>

text \<open>
  A shallow embedding of \<open>extract_segments\<close>, \<open>calculate_file_md5\<close>,
  \<open>download_segment\<close> and \<open>download_segments_in_parallel\<close>.

  Conventions of the model:
  \<^item> a Python \<open>str\<close> is a \<open>string\<close>, a file's binary content a list of bytes;
  \<^item> the disk is a map from paths to contents (directories are not modelled, so
    \<open>os.makedirs\<close> has no counterpart); the ledger document \<open>segment_info.json\<close> is
    kept as what \<open>json.load\<close> makes of it;
  \<^item> \<open>hashlib.md5\<close> is a parameter \<open>H\<close> of every function that hashes;
  \<^item> the network is a parameter \<open>net\<close>: what \<open>requests.get\<close> yields for a URL;
  \<^item> an exception that leaves a function is the \<open>Inl\<close> of its result;
  \<^item> logging and the progress bars are left out: they change no file and no result.
\<close>

subsection \<open>Python strings\<close>

type_synonym byte = "8 word"

datatype py_error = ValueError | FileNotFoundError | JSONDecodeError

text \<open>\<open>s.startswith(p)\<close>.\<close>

fun startswith :: "string \<Rightarrow> string \<Rightarrow> bool" where
  "startswith s [] = True"
| "startswith [] (p # ps) = False"
| "startswith (c # cs) (p # ps) = (c = p \<and> startswith cs ps)"

text \<open>\<open>s.endswith(p)\<close>.\<close>

definition endswith :: "string \<Rightarrow> string \<Rightarrow> bool" where
  "endswith s p = startswith (rev s) (rev p)"

text \<open>
  \<open>str.isspace\<close> on one character, for the code points below 256: tab, line feed,
  vertical tab, form feed, carriage return, the four separators 0x1c to 0x1f, space,
  next line (0x85) and no-break space (0xa0).
\<close>

definition isspace :: "char \<Rightarrow> bool" where
  "isspace c = (of_char c \<in> {9, 10, 11, 12, 13, 28, 29, 30, 31, 32, 133, 160 :: nat})"

text \<open>\<open>s.strip()\<close>: whitespace removed at both ends.\<close>

definition lstrip :: "string \<Rightarrow> string" where
  "lstrip s = dropWhile isspace s"

definition rstrip :: "string \<Rightarrow> string" where
  "rstrip s = rev (dropWhile isspace (rev s))"

definition strip :: "string \<Rightarrow> string" where
  "strip s = rstrip (lstrip s)"

text \<open>\<open>str(i)\<close> of a non-negative \<open>int\<close>: decimal digits, no leading zero.\<close>

definition digit_char :: "nat \<Rightarrow> char" where
  "digit_char d = ''0123456789'' ! d"

fun str :: "nat \<Rightarrow> string" where
  "str n = (if n < 10 then [digit_char n] else str (n div 10) @ [digit_char (n mod 10)])"

declare str.simps [simp del]

text \<open>The format \<open>{i:05d}\<close>: zero-padded on the left to at least five digits.\<close>

definition format_05d :: "nat \<Rightarrow> string" where
  "format_05d i = replicate (5 - length (str i)) (CHR ''0'') @ str i"

subsection \<open>\<open>os.path\<close> (POSIX)\<close>

text \<open>
  \<open>posixpath.join(a, b)\<close>: an absolute \<open>b\<close> replaces \<open>a\<close>; otherwise \<open>b\<close> is appended,
  after a separator unless \<open>a\<close> is empty or already ends with one.
\<close>

definition path_join :: "string \<Rightarrow> string \<Rightarrow> string" where
  "path_join a b =
     (if startswith b ''/'' then b
      else if a = [] \<or> endswith a ''/'' then a @ b
      else a @ ''/'' @ b)"

text \<open>
  \<open>posixpath.dirname(p)\<close>: everything up to and including the last separator, with
  trailing separators removed unless nothing but separators is left.
\<close>

definition dirname :: "string \<Rightarrow> string" where
  "dirname p =
     (let head = rev (dropWhile (\<lambda>c. c \<noteq> CHR ''/'') (rev p))
      in if head \<noteq> [] \<and> head \<noteq> replicate (length head) (CHR ''/'')
         then rev (dropWhile (\<lambda>c. c = CHR ''/'') (rev head))
         else head)"

subsection \<open>The manifest parser\<close>

text \<open>
  A file opened in text mode turns \<open>\r\n\<close> and a lone \<open>\r\<close> into \<open>\n\<close> (universal
  newlines); iterating it yields the lines, each with its terminating \<open>\n\<close>, the last
  one possibly without.
\<close>

fun universal_newlines :: "string \<Rightarrow> string" where
  "universal_newlines [] = []"
| "universal_newlines [c] = [if c = CHR 0x0D then CHR 0x0A else c]"
| "universal_newlines (c # d # cs) =
     (if c = CHR 0x0D
      then CHR 0x0A # (if d = CHR 0x0A then universal_newlines cs else universal_newlines (d # cs))
      else c # universal_newlines (d # cs))"

fun readlines :: "string \<Rightarrow> string \<Rightarrow> string list" where
  "readlines cur [] = (if cur = [] then [] else [cur])"
| "readlines cur (c # cs) =
     (if c = CHR 0x0A then (cur @ [c]) # readlines [] cs else readlines (cur @ [c]) cs)"

definition file_lines :: "string \<Rightarrow> string list" where
  "file_lines text = readlines [] (universal_newlines text)"

text \<open>
  The loop of \<open>extract_segments\<close> over the lines of the file; \<open>segments\<close> is the list
  built so far.
\<close>

fun extract_loop :: "string \<Rightarrow> string list \<Rightarrow> string list \<Rightarrow> string list" where
  "extract_loop base_url [] segments = segments"
| "extract_loop base_url (line # rest) segments =
     (let line = strip line in
      if line \<noteq> [] \<and> \<not> startswith line ''#''
      then extract_loop base_url rest
             (segments @ [if \<not> startswith line ''http'' then path_join base_url line else line])
      else extract_loop base_url rest segments)"

text \<open>
  \<open>extract_segments(m3u8_filename)\<close>; \<open>texts\<close> maps the path of a text file to its
  decoded content, and opening a missing file raises.
\<close>

definition extract_segments :: "(string \<rightharpoonup> string) \<Rightarrow> string \<Rightarrow> py_error + string list" where
  "extract_segments texts m3u8_filename =
     (let base_url = dirname m3u8_filename
      in case texts m3u8_filename of
           None \<Rightarrow> Inl FileNotFoundError
         | Some text \<Rightarrow> Inr (extract_loop base_url (file_lines text) []))"

subsection \<open>The fetch worker\<close>

text \<open>
  What \<open>requests.get(url, stream=True, timeout=10)\<close> gives: it raises a
  \<open>RequestException\<close> (connection error, timeout, invalid URL), or returns a response
  with a status code, a \<open>content-length\<close> header and a body stream. The request
  carries no \<open>Range\<close> header. The header is absent, a text \<open>int()\<close> reads as a number,
  or a text \<open>int()\<close> rejects. The body stream \<open>iter_content\<close> walks yields a chunk,
  ends, or breaks with a \<open>RequestException\<close> (connection lost or timed out while
  reading).
\<close>

datatype content_length = Absent | Length int | Malformed

datatype body_stream = End | Chunk "byte list" body_stream | Broken

datatype http_result =
  RequestException
| Response (status_code: nat) (content_length_header: content_length) (body: body_stream)

type_synonym filesystem = "string \<rightharpoonup> byte list"

text \<open>\<open>response.raise_for_status()\<close> raises \<open>HTTPError\<close> on a 4xx or 5xx status.\<close>

definition raise_for_status :: "nat \<Rightarrow> bool" where
  "raise_for_status status = (400 \<le> status \<and> status < 600)"

text \<open>\<open>int(response.headers.get('content-length', 0))\<close>.\<close>

definition total_size_of :: "content_length \<Rightarrow> py_error + int" where
  "total_size_of h = (case h of Absent \<Rightarrow> Inr 0 | Length n \<Rightarrow> Inr n | Malformed \<Rightarrow> Inl ValueError)"

text \<open>\<open>calculate_file_md5(filename)\<close>: the digest of the whole content of the file.\<close>

definition calculate_file_md5 ::
  "(byte list \<Rightarrow> string) \<Rightarrow> filesystem \<Rightarrow> string \<Rightarrow> py_error + string" where
  "calculate_file_md5 H files filename =
     (case files filename of None \<Rightarrow> Inl FileNotFoundError | Some content \<Rightarrow> Inr (H content))"

text \<open>
  The loop \<open>for data in response.iter_content(block_size): f.write(data)\<close> on a file
  whose content is \<open>content\<close>: the content written, and whether the stream ended
  without an exception.
\<close>

fun write_chunks :: "byte list \<Rightarrow> body_stream \<Rightarrow> byte list \<times> bool" where
  "write_chunks content End = (content, True)"
| "write_chunks content (Chunk data rest) = write_chunks (content @ data) rest"
| "write_chunks content Broken = (content, False)"

text \<open>A body stream breaks when reading it to its end raises.\<close>

fun breaks :: "body_stream \<Rightarrow> bool" where
  "breaks End = False"
| "breaks (Chunk data rest) = breaks rest"
| "breaks Broken = True"

text \<open>The handler \<open>except requests.RequestException\<close>: the file is removed, the result is \<open>None\<close>.\<close>

definition request_failed :: "filesystem \<Rightarrow> string \<Rightarrow> filesystem \<times> (py_error + string option)" where
  "request_failed files output_filename = (files(output_filename := None), Inr None)"

text \<open>
  The \<open>with open(output_filename, mode)\<close> block and the final hash: mode \<open>wb\<close> starts
  from an empty file, mode \<open>ab\<close> from the existing content.
\<close>

definition stream_to_file ::
  "(byte list \<Rightarrow> string) \<Rightarrow> filesystem \<Rightarrow> string \<Rightarrow> byte list \<Rightarrow> body_stream
     \<Rightarrow> filesystem \<times> (py_error + string option)" where
  "stream_to_file H files output_filename opened stream =
     (case write_chunks opened stream of
        (content, True) \<Rightarrow>
          (let files' = files(output_filename \<mapsto> content)
           in (files', map_sum id Some (calculate_file_md5 H files' output_filename)))
      | (content, False) \<Rightarrow> request_failed (files(output_filename \<mapsto> content)) output_filename)"

text \<open>
  \<open>download_segment(url, output_filename, segment_index, total_segments)\<close>; the last
  two arguments only label the progress bar. The result is the disk after the call
  and the value returned (\<open>Inr None\<close> for \<open>None\<close>) or the exception raised.
\<close>

definition download_segment ::
  "(byte list \<Rightarrow> string) \<Rightarrow> (string \<Rightarrow> http_result) \<Rightarrow> filesystem \<Rightarrow> string \<Rightarrow> string
     \<Rightarrow> filesystem \<times> (py_error + string option)" where
  "download_segment H net files url output_filename =
     (case net url of
        RequestException \<Rightarrow> request_failed files output_filename
      | Response status header stream \<Rightarrow>
          if raise_for_status status then request_failed files output_filename
          else (case total_size_of header of
                  Inl e \<Rightarrow> (files, Inl e)
                | Inr total_size \<Rightarrow>
                    (case files output_filename of
                       Some existing \<Rightarrow>
                         if int (length existing) \<ge> total_size
                         then (files, map_sum id Some (calculate_file_md5 H files output_filename))
                         else stream_to_file H files output_filename existing stream
                     | None \<Rightarrow> stream_to_file H files output_filename [] stream)))"

subsection \<open>The download scheduler\<close>

text \<open>
  An entry of the ledger is the dict \<open>{'url': ..., 'md5': ...}\<close>; the ledger is a dict
  from \<open>str(index)\<close> to entries, kept in insertion order as Python keeps it. A ledger
  document on disk is represented by what \<open>json.load\<close> makes of it: it raises
  (\<open>Unreadable\<close>: the text is not JSON), or it returns the dict. A readable document
  has the shape \<open>json.dump\<close> wrote.
\<close>

record segment_record =
  url_of :: string
  md5_of :: string

type_synonym ledger = "(string \<times> segment_record) list"

datatype json_document = Unreadable | Document ledger

record disk =
  files_of :: filesystem
  documents_of :: "string \<rightharpoonup> json_document"

text \<open>\<open>os.path.join(output_dir, f"segment_{i:05d}.ts")\<close>.\<close>

definition segment_path :: "string \<Rightarrow> nat \<Rightarrow> string" where
  "segment_path output_dir i = path_join output_dir (''segment_'' @ format_05d i @ ''.ts'')"

text \<open>
  Lines 130 to 134: the ledger the scheduler starts from, or the exception of
  \<open>json.load\<close>.
\<close>

definition load_segment_info :: "disk \<Rightarrow> string \<Rightarrow> py_error + ledger" where
  "load_segment_info d segment_info_file =
     (case documents_of d segment_info_file of
        None \<Rightarrow> Inr []
      | Some Unreadable \<Rightarrow> Inl JSONDecodeError
      | Some (Document segment_info) \<Rightarrow> Inr segment_info)"

text \<open>
  The test of lines 143 and 144: the ledger has an entry under \<open>str(i)\<close>, the segment
  file exists, and the hash stored in the entry is the hash of the file.
\<close>

definition already_done ::
  "(byte list \<Rightarrow> string) \<Rightarrow> filesystem \<Rightarrow> ledger \<Rightarrow> string \<Rightarrow> nat \<Rightarrow> bool" where
  "already_done H fls segment_info output_dir i =
     (case (map_of segment_info (str i), fls (segment_path output_dir i)) of
        (Some entry, Some content) \<Rightarrow>
          Inr (md5_of entry) = calculate_file_md5 H fls (segment_path output_dir i)
      | _ \<Rightarrow> False)"

text \<open>
  The loop over \<open>enumerate(segments)\<close>, lines 141 to 149. Its state is
  \<open>downloaded_segments\<close> and \<open>future_to_index\<close>; a future is kept as the index with
  the arguments submitted for it.
\<close>

fun submit_loop ::
  "(byte list \<Rightarrow> string) \<Rightarrow> filesystem \<Rightarrow> ledger \<Rightarrow> string \<Rightarrow> (nat \<times> string) list
     \<Rightarrow> (nat \<times> string) list \<times> (nat \<times> string \<times> string) list
     \<Rightarrow> (nat \<times> string) list \<times> (nat \<times> string \<times> string) list" where
  "submit_loop H fls segment_info output_dir [] state = state"
| "submit_loop H fls segment_info output_dir ((i, seg) # rest) (downloaded_segments, future_to_index) =
     (let segment_filename = segment_path output_dir i
      in if already_done H fls segment_info output_dir i
         then submit_loop H fls segment_info output_dir rest
                (downloaded_segments @ [(i, segment_filename)], future_to_index)
         else submit_loop H fls segment_info output_dir rest
                (downloaded_segments, future_to_index @ [(i, seg, segment_filename)]))"

text \<open>
  \<open>as_completed\<close> yields the futures in the order in which they finish, which the
  program does not control. The schedule \<open>sched\<close> decides it: its head picks which of
  the futures still running finishes next; when it runs out, the rest finish in
  the order of submission.
\<close>

fun as_completed :: "nat list \<Rightarrow> 'a list \<Rightarrow> 'a list" where
  "as_completed sched [] = []"
| "as_completed [] (x # xs) = x # xs"
| "as_completed (k # sched) (x # xs) =
     (let j = k mod length (x # xs)
      in (x # xs) ! j # as_completed sched (take j (x # xs) @ drop (Suc j) (x # xs)))"

text \<open>
  The loop over the finished futures, lines 151 to 164. Its state is the files,
  \<open>downloaded_segments\<close> and \<open>segment_info\<close>. A worker touches no file but its own
  segment file, and nothing else reads that file while the batch runs, so its effect
  is applied when its future is taken up. An exception of the worker is caught
  (\<open>except Exception\<close>) and a result that is \<open>None\<close> or empty is only logged.
\<close>

fun result_loop ::
  "(byte list \<Rightarrow> string) \<Rightarrow> (string \<Rightarrow> http_result) \<Rightarrow> string list \<Rightarrow> string
     \<Rightarrow> (nat \<times> string \<times> string) list
     \<Rightarrow> filesystem \<times> (nat \<times> string) list \<times> ledger
     \<Rightarrow> filesystem \<times> (nat \<times> string) list \<times> ledger" where
  "result_loop H net segments output_dir [] state = state"
| "result_loop H net segments output_dir ((segment_index, seg, output_filename) # rest)
       (fls, downloaded_segments, segment_info) =
     (case download_segment H net fls seg output_filename of
        (fls', Inr (Some md5)) \<Rightarrow>
          if md5 \<noteq> []
          then result_loop H net segments output_dir rest
                 (fls',
                  downloaded_segments @ [(segment_index, segment_path output_dir segment_index)],
                  AList.update (str segment_index)
                    \<lparr>url_of = segments ! segment_index, md5_of = md5\<rparr> segment_info)
          else result_loop H net segments output_dir rest (fls', downloaded_segments, segment_info)
      | (fls', _) \<Rightarrow>
          result_loop H net segments output_dir rest (fls', downloaded_segments, segment_info))"

text \<open>
  \<open>download_segments_in_parallel(segments, output_dir, num_threads)\<close>: the sorted
  list returned and the disk left behind, or the exception raised.
  \<open>ThreadPoolExecutor\<close> refuses a pool without workers.
\<close>

definition download_segments_in_parallel ::
  "(byte list \<Rightarrow> string) \<Rightarrow> (string \<Rightarrow> http_result) \<Rightarrow> nat list \<Rightarrow> disk \<Rightarrow> string list
     \<Rightarrow> string \<Rightarrow> int \<Rightarrow> py_error + ((nat \<times> string) list \<times> disk)" where
  "download_segments_in_parallel H net sched d segments output_dir num_threads =
     (let segment_info_file = path_join output_dir ''segment_info.json''
      in case load_segment_info d segment_info_file of
           Inl e \<Rightarrow> Inl e
         | Inr loaded \<Rightarrow>
             if num_threads \<le> 0 then Inl ValueError
             else
               (let (skipped, future_to_index) =
                      submit_loop H (files_of d) loaded output_dir (enumerate 0 segments) ([], []);
                    (fls, downloaded_segments, segment_info) =
                      result_loop H net segments output_dir (as_completed sched future_to_index)
                        (files_of d, skipped, loaded)
                in Inr (sort_key fst downloaded_segments,
                        d\<lparr>files_of := fls,
                          documents_of := (documents_of d)(segment_info_file \<mapsto> Document segment_info)\<rparr>)))"

section \<open>Properties of the fetch worker\<close>

lemma write_chunks_append:
  "write_chunks content stream =
     (content @ fst (write_chunks [] stream), snd (write_chunks [] stream))"
proof (induction stream arbitrary: content)
  case (Chunk data rest)
  show ?case
    using Chunk.IH [of "content @ data"] Chunk.IH [of data] by simp
qed simp_all

lemma write_chunks_breaks: "snd (write_chunks content stream) = (\<not> breaks stream)"
  by (induction stream arbitrary: content) simp_all

lemma stream_to_file_complete:
  assumes "write_chunks [] stream = (received, True)"
  shows "stream_to_file H files output_filename opened stream =
           (files(output_filename \<mapsto> opened @ received), Inr (Some (H (opened @ received))))"
proof -
  have "write_chunks opened stream = (opened @ received, True)"
    using assms write_chunks_append [of opened stream] by simp
  then show ?thesis
    by (simp add: stream_to_file_def calculate_file_md5_def)
qed

lemma stream_to_file_broken:
  assumes "breaks stream"
  shows "stream_to_file H files output_filename opened stream =
           (files(output_filename := None), Inr None)"
proof -
  obtain content where "write_chunks opened stream = (content, False)"
    using assms write_chunks_breaks [of opened stream]
    by (cases "write_chunks opened stream") simp
  then show ?thesis
    by (simp add: stream_to_file_def request_failed_def)
qed

text \<open>
  C1. A partial file shorter than the reported total size is opened in append mode,
  but the request carries no \<open>Range\<close> header, so the body streamed is the whole
  resource from its first byte. The whole resource is appended to the partial file:
  the file ends as the partial content followed by the full resource, which is the
  resource only when the partial file was empty. The claim (the file ends equal to
  the resource) fails on the code.
\<close>

theorem download_segment_resume_appends_whole_body:
  assumes "net url = Response status (Length (int (length resource))) stream"
    and "\<not> raise_for_status status"
    and "write_chunks [] stream = (resource, True)"
    and "files output_filename = Some partial"
    and "length partial < length resource"
  shows "download_segment H net files url output_filename =
           (files(output_filename \<mapsto> partial @ resource), Inr (Some (H (partial @ resource))))
       \<and> (partial \<noteq> [] \<longrightarrow>
            fst (download_segment H net files url output_filename) output_filename \<noteq> Some resource)"
  using assms
  by (simp add: download_segment_def total_size_of_def stream_to_file_complete)

theorem download_segment_resume_appends_whole_body_witness:
  "(\<lambda>u. Response 200 (Length 3) (Chunk [1, 2] (Chunk [3] End))) ''http://h/s0.ts''
      = Response 200 (Length (int (length [1, 2, 3 :: byte]))) (Chunk [1, 2] (Chunk [3] End))
   \<and> \<not> raise_for_status 200
   \<and> write_chunks [] (Chunk [1, 2] (Chunk [3] End)) = ([1, 2, 3], True)
   \<and> [''out/segment_00000.ts'' \<mapsto> [1 :: byte]] ''out/segment_00000.ts'' = Some [1]
   \<and> length [1 :: byte] < length [1, 2, 3 :: byte]
   \<and> download_segment (\<lambda>content. ''md5:'' @ str (length content))
        (\<lambda>u. Response 200 (Length 3) (Chunk [1, 2] (Chunk [3] End)))
        [''out/segment_00000.ts'' \<mapsto> [1]] ''http://h/s0.ts'' ''out/segment_00000.ts''
      = ([''out/segment_00000.ts'' \<mapsto> [1, 1, 2, 3]], Inr (Some ''md5:4''))
   \<and> fst (download_segment (\<lambda>content. ''md5:'' @ str (length content))
        (\<lambda>u. Response 200 (Length 3) (Chunk [1, 2] (Chunk [3] End)))
        [''out/segment_00000.ts'' \<mapsto> [1]] ''http://h/s0.ts'' ''out/segment_00000.ts'')
          ''out/segment_00000.ts''
      \<noteq> Some [1, 2, 3]"
  using download_segment_resume_appends_whole_body
    [of "\<lambda>u. Response 200 (Length 3) (Chunk [1, 2] (Chunk [3] End))" "''http://h/s0.ts''" 200
        "[1, 2, 3]" "Chunk [1, 2] (Chunk [3] End)" "[''out/segment_00000.ts'' \<mapsto> [1]]"
        "''out/segment_00000.ts''" "[1]" "\<lambda>content. ''md5:'' @ str (length content)"]
  by (simp add: raise_for_status_def str.simps digit_char_def)

text \<open>
  C2. With no \<open>content-length\<close> header the total size is taken as 0, so the test
  \<open>initial_pos >= total_size\<close> holds for every existing file, whatever its length:
  the worker reads no body, leaves the file as it is and returns the hash of the
  existing content as a success. The claim (the segment is fetched again from
  scratch and the existing file overwritten) fails on the code: a truncated file
  from an interrupted run is reported as downloaded.
\<close>

theorem download_segment_no_content_length_keeps_existing:
  assumes "net url = Response status Absent stream"
    and "\<not> raise_for_status status"
    and "files output_filename = Some existing"
  shows "download_segment H net files url output_filename = (files, Inr (Some (H existing)))"
  using assms
  by (simp add: download_segment_def total_size_of_def calculate_file_md5_def)

theorem download_segment_no_content_length_keeps_existing_witness:
  "(\<lambda>u. Response 200 Absent (Chunk [1, 2, 3] End)) ''http://h/s0.ts''
      = Response 200 Absent (Chunk [1, 2, 3] End)
   \<and> \<not> raise_for_status 200
   \<and> [''out/segment_00000.ts'' \<mapsto> [1 :: byte]] ''out/segment_00000.ts'' = Some [1]
   \<and> download_segment (\<lambda>content. ''md5:'' @ str (length content))
        (\<lambda>u. Response 200 Absent (Chunk [1, 2, 3] End))
        [''out/segment_00000.ts'' \<mapsto> [1]] ''http://h/s0.ts'' ''out/segment_00000.ts''
      = ([''out/segment_00000.ts'' \<mapsto> [1]], Inr (Some ''md5:1''))
   \<and> fst (download_segment (\<lambda>content. ''md5:'' @ str (length content))
          (\<lambda>u. Response 200 Absent (Chunk [1, 2, 3] End))
          [''out/segment_00000.ts'' \<mapsto> [1]] ''http://h/s0.ts'' ''out/segment_00000.ts'')
        ''out/segment_00000.ts''
     \<noteq> Some [1, 2, 3]"
  using download_segment_no_content_length_keeps_existing
    [of "\<lambda>u. Response 200 Absent (Chunk [1, 2, 3] End)" "''http://h/s0.ts''" 200
        "Chunk [1, 2, 3] End" "[''out/segment_00000.ts'' \<mapsto> [1]]" "''out/segment_00000.ts''"
        "[1]" "\<lambda>content. ''md5:'' @ str (length content)"]
  by (simp add: raise_for_status_def str.simps digit_char_def)

text \<open>
  C5. A fetch fails at the network layer when \<open>requests.get\<close> raises (connection
  error, timeout), when the status is one \<open>raise_for_status\<close> rejects (4xx, 5xx), or
  when the connection breaks while the body is read; the body is read when the
  header is a number and the target file is missing or shorter than it. In each case
  the worker returns \<open>None\<close>, raises nothing, leaves no file at the target path and
  changes no other file.
\<close>

theorem download_segment_network_failure:
  assumes "net url = RequestException
         \<or> (\<exists>status header stream.
               net url = Response status header stream \<and> raise_for_status status)
         \<or> (\<exists>status header stream total_size.
               net url = Response status header stream \<and> \<not> raise_for_status status
             \<and> total_size_of header = Inr total_size
             \<and> (case files output_filename of
                   None \<Rightarrow> True
                 | Some existing \<Rightarrow> int (length existing) < total_size)
             \<and> breaks stream)"
  shows "download_segment H net files url output_filename =
           (files(output_filename := None), Inr None)"
  using assms
proof (elim disjE exE conjE)
  assume "net url = RequestException"
  then show ?thesis by (simp add: download_segment_def request_failed_def)
next
  fix status header stream
  assume "net url = Response status header stream" "raise_for_status status"
  then show ?thesis by (simp add: download_segment_def request_failed_def)
next
  fix status header stream total_size
  assume r: "net url = Response status header stream" "\<not> raise_for_status status"
    "total_size_of header = Inr total_size"
    and e: "case files output_filename of
              None \<Rightarrow> True
            | Some existing \<Rightarrow> int (length existing) < total_size"
    and b: "breaks stream"
  show ?thesis
    using r e stream_to_file_broken [OF b]
    by (simp add: download_segment_def split: option.splits)
qed

theorem download_segment_network_failure_witness:
  "download_segment (\<lambda>content. ''md5:'' @ str (length content)) (\<lambda>u. RequestException)
     [''out/segment_00000.ts'' \<mapsto> [9], ''out/segment_00001.ts'' \<mapsto> [5]]
     ''http://h/s0.ts'' ''out/segment_00000.ts''
   = ([''out/segment_00001.ts'' \<mapsto> [5]], Inr None)
   \<and> raise_for_status 404
   \<and> download_segment (\<lambda>content. ''md5:'' @ str (length content))
       (\<lambda>u. Response 404 (Length 2) (Chunk [1, 2] End))
       [''out/segment_00000.ts'' \<mapsto> [9], ''out/segment_00001.ts'' \<mapsto> [5]]
       ''http://h/s0.ts'' ''out/segment_00000.ts''
   = ([''out/segment_00001.ts'' \<mapsto> [5]], Inr None)
   \<and> \<not> raise_for_status 200 \<and> total_size_of (Length 4) = Inr 4 \<and> breaks (Chunk [1, 2] Broken)
   \<and> download_segment (\<lambda>content. ''md5:'' @ str (length content))
       (\<lambda>u. Response 200 (Length 4) (Chunk [1, 2] Broken))
       [''out/segment_00000.ts'' \<mapsto> [9], ''out/segment_00001.ts'' \<mapsto> [5]]
       ''http://h/s0.ts'' ''out/segment_00000.ts''
   = ([''out/segment_00001.ts'' \<mapsto> [5]], Inr None)"
proof -
  let ?H = "\<lambda>content :: byte list. ''md5:'' @ str (length content)"
  let ?files = "[''out/segment_00000.ts'' \<mapsto> [9 :: byte], ''out/segment_00001.ts'' \<mapsto> [5]]"
  have gone: "?files(''out/segment_00000.ts'' := None) = [''out/segment_00001.ts'' \<mapsto> [5]]"
    by (rule ext) simp
  have "download_segment ?H (\<lambda>u. RequestException) ?files ''http://h/s0.ts''
          ''out/segment_00000.ts'' = (?files(''out/segment_00000.ts'' := None), Inr None)"
    by (rule download_segment_network_failure) simp
  moreover have "download_segment ?H (\<lambda>u. Response 404 (Length 2) (Chunk [1, 2] End)) ?files
          ''http://h/s0.ts'' ''out/segment_00000.ts''
        = (?files(''out/segment_00000.ts'' := None), Inr None)"
    by (rule download_segment_network_failure) (simp add: raise_for_status_def)
  moreover have "download_segment ?H (\<lambda>u. Response 200 (Length 4) (Chunk [1, 2] Broken)) ?files
          ''http://h/s0.ts'' ''out/segment_00000.ts''
        = (?files(''out/segment_00000.ts'' := None), Inr None)"
    by (rule download_segment_network_failure) (simp add: raise_for_status_def total_size_of_def)
  ultimately show ?thesis
    unfolding gone by (simp add: raise_for_status_def total_size_of_def)
qed

section \<open>Properties of the manifest parser\<close>

lemma extract_loop_eq:
  "extract_loop base_url lines segments =
     segments @
     map (\<lambda>line. if startswith line ''http'' then line else path_join base_url line)
       (filter (\<lambda>line. line \<noteq> [] \<and> \<not> startswith line ''#'') (map strip lines))"
  by (induction lines arbitrary: segments) (simp_all add: Let_def)

lemma startswith_iff: "startswith s p \<longleftrightarrow> (\<exists>t. s = p @ t)"
proof (induction s p rule: startswith.induct)
  case (3 c cs p ps)
  then show ?case by auto
qed simp_all

lemma startswith_trans: "startswith s p \<Longrightarrow> startswith p q \<Longrightarrow> startswith s q"
  by (auto simp add: startswith_iff)

text \<open>
  C9. For every manifest text, the parser returns as many locators as the file has
  lines that are neither blank nor comments, a blank line being one that is empty
  once surrounding whitespace is stripped and a comment one that then begins with
  \<open>#\<close>; the scheduler's \<open>enumerate\<close> gives the locator of the \<open>k\<close>-th such line the
  index \<open>k\<close>, counted from 0.
\<close>

theorem extract_segments_count_and_index:
  assumes "texts m3u8_filename = Some text"
  shows "\<exists>segments.
           extract_segments texts m3u8_filename = Inr segments
         \<and> length segments =
             length (filter (\<lambda>line. strip line \<noteq> [] \<and> \<not> startswith (strip line) ''#'')
                       (file_lines text))
         \<and> map fst (enumerate 0 segments) = [0..<length segments]
         \<and> (\<forall>k < length segments.
               enumerate 0 segments ! k = (k, segments ! k)
             \<and> segments ! k =
                 (let line = strip (filter (\<lambda>line. strip line \<noteq> [] \<and> \<not> startswith (strip line) ''#'')
                                      (file_lines text) ! k)
                  in if startswith line ''http'' then line
                     else path_join (dirname m3u8_filename) line))"
proof -
  let ?keep = "\<lambda>line. strip line \<noteq> [] \<and> \<not> startswith (strip line) ''#''"
  let ?resolve = "\<lambda>line. if startswith line ''http'' then line
                        else path_join (dirname m3u8_filename) line"
  let ?segments = "map ?resolve (map strip (filter ?keep (file_lines text)))"
  have f: "filter (\<lambda>line. line \<noteq> [] \<and> \<not> startswith line ''#'') (map strip (file_lines text))
             = map strip (filter ?keep (file_lines text))"
    by (simp add: filter_map comp_def)
  have e: "extract_segments texts m3u8_filename = Inr ?segments"
    using assms by (simp add: extract_segments_def extract_loop_eq f)
  show ?thesis
    by (rule exI [of _ ?segments]) (simp add: e enumerate_eq_zip nth_enumerate_eq Let_def)
qed

theorem extract_segments_count_and_index_witness:
  "[''list/index.m3u8'' \<mapsto>
      ''#EXTM3U\<newline>  #EXTINF:9,\<newline>seg0.ts\<newline>\<newline> http://h/s1.ts'' @ CHR 0x0D # ''\<newline>../s2.ts'']
     ''list/index.m3u8''
     = Some (''#EXTM3U\<newline>  #EXTINF:9,\<newline>seg0.ts\<newline>\<newline> http://h/s1.ts'' @ CHR 0x0D # ''\<newline>../s2.ts'')
   \<and> extract_segments
        [''list/index.m3u8'' \<mapsto>
           ''#EXTM3U\<newline>  #EXTINF:9,\<newline>seg0.ts\<newline>\<newline> http://h/s1.ts'' @ CHR 0x0D # ''\<newline>../s2.ts'']
        ''list/index.m3u8''
     = Inr [''list/seg0.ts'', ''http://h/s1.ts'', ''list/../s2.ts'']
   \<and> length (filter (\<lambda>line. strip line \<noteq> [] \<and> \<not> startswith (strip line) ''#'')
        (file_lines
          (''#EXTM3U\<newline>  #EXTINF:9,\<newline>seg0.ts\<newline>\<newline> http://h/s1.ts'' @ CHR 0x0D # ''\<newline>../s2.ts''))) = 3
   \<and> enumerate 0 [''list/seg0.ts'', ''http://h/s1.ts'', ''list/../s2.ts'']
     = [(0, ''list/seg0.ts''), (1, ''http://h/s1.ts''), (2, ''list/../s2.ts'')]"
  using extract_segments_count_and_index
    [of "[''list/index.m3u8'' \<mapsto>
           ''#EXTM3U\<newline>  #EXTINF:9,\<newline>seg0.ts\<newline>\<newline> http://h/s1.ts'' @ CHR 0x0D # ''\<newline>../s2.ts'']"
        "''list/index.m3u8''"
        "''#EXTM3U\<newline>  #EXTINF:9,\<newline>seg0.ts\<newline>\<newline> http://h/s1.ts'' @ CHR 0x0D # ''\<newline>../s2.ts''"]
  by (simp add: extract_segments_def file_lines_def strip_def lstrip_def rstrip_def isspace_def
      dirname_def path_join_def endswith_def)

text \<open>
  C8, as the claim states it, fails: the parser does not ask whether a line is an
  absolute URL but whether it begins with \<open>http\<close>. The absolute URL
  \<open>ftp://h/s.ts\<close> is joined onto the manifest's directory, and the relative path
  \<open>httpdocs/seg2.ts\<close> is used verbatim instead of being resolved.
\<close>

theorem extract_segments_resolves_reference_counterexample:
  "extract_segments [''list/index.m3u8'' \<mapsto> ''ftp://h/s.ts\<newline>httpdocs/seg2.ts\<newline>'']
     ''list/index.m3u8''
   = Inr [''list/ftp://h/s.ts'', ''httpdocs/seg2.ts'']
   \<and> path_join (dirname ''list/index.m3u8'') ''httpdocs/seg2.ts'' = ''list/httpdocs/seg2.ts''"
  by (simp add: extract_segments_def file_lines_def strip_def lstrip_def rstrip_def isspace_def
      dirname_def path_join_def endswith_def)

text \<open>
  C8, amended. The locator of a line that is not skipped is the stripped line itself
  when it begins with \<open>http\<close> (so every URL written with \<open>http://\<close> or \<open>https://\<close> is
  used verbatim), and otherwise the \<open>os.path.join\<close> of the manifest's directory and
  the line: the two are put together with one separator, and nothing of the line
  (such as \<open>..\<close>) is resolved.
\<close>

theorem extract_segments_resolves_reference:
  assumes "texts m3u8_filename = Some text"
    and "k < length (filter (\<lambda>line. line \<noteq> [] \<and> \<not> startswith line ''#'') (map strip (file_lines text)))"
    and "line = filter (\<lambda>line. line \<noteq> [] \<and> \<not> startswith line ''#'') (map strip (file_lines text)) ! k"
  shows "\<exists>segments.
           extract_segments texts m3u8_filename = Inr segments \<and> k < length segments
         \<and> (startswith line ''http'' \<longrightarrow> segments ! k = line)
         \<and> (startswith line ''http://'' \<or> startswith line ''https://'' \<longrightarrow> segments ! k = line)
         \<and> (\<not> startswith line ''http'' \<longrightarrow> segments ! k = path_join (dirname m3u8_filename) line)
         \<and> (\<not> startswith line ''http'' \<and> \<not> startswith line ''/''
              \<and> dirname m3u8_filename \<noteq> [] \<and> \<not> endswith (dirname m3u8_filename) ''/'' \<longrightarrow>
              segments ! k = dirname m3u8_filename @ ''/'' @ line)"
proof -
  let ?emitted = "filter (\<lambda>line. line \<noteq> [] \<and> \<not> startswith line ''#'') (map strip (file_lines text))"
  let ?resolve = "\<lambda>line. if startswith line ''http'' then line
                        else path_join (dirname m3u8_filename) line"
  have e: "extract_segments texts m3u8_filename = Inr (map ?resolve ?emitted)"
    using assms(1) by (simp add: extract_segments_def extract_loop_eq)
  have h: "startswith line ''http://'' \<or> startswith line ''https://'' \<Longrightarrow> startswith line ''http''"
    by (auto elim!: startswith_trans)
  have n: "map ?resolve ?emitted ! k = ?resolve line"
    using assms(2,3) by simp
  show ?thesis
    by (rule exI [of _ "map ?resolve ?emitted"]) (use e h n assms(2) in \<open>auto simp add: path_join_def\<close>)
qed

theorem extract_segments_resolves_reference_witness:
  "extract_segments
     [''list/index.m3u8'' \<mapsto>
        ''#EXTM3U\<newline>  #EXTINF:9,\<newline>seg0.ts\<newline>\<newline> http://h/s1.ts'' @ CHR 0x0D # ''\<newline>../s2.ts'']
     ''list/index.m3u8''
   = Inr [''list/seg0.ts'', ''http://h/s1.ts'', ''list/../s2.ts'']
   \<and> filter (\<lambda>line. line \<noteq> [] \<and> \<not> startswith line ''#'')
       (map strip (file_lines
          (''#EXTM3U\<newline>  #EXTINF:9,\<newline>seg0.ts\<newline>\<newline> http://h/s1.ts'' @ CHR 0x0D # ''\<newline>../s2.ts'')))
     = [''seg0.ts'', ''http://h/s1.ts'', ''../s2.ts'']
   \<and> startswith ''http://h/s1.ts'' ''http://''
   \<and> \<not> startswith ''../s2.ts'' ''http'' \<and> \<not> startswith ''../s2.ts'' ''/''
   \<and> dirname ''list/index.m3u8'' = ''list'' \<and> \<not> endswith ''list'' ''/''"
  using
    extract_segments_resolves_reference
      [of "[''list/index.m3u8'' \<mapsto>
             ''#EXTM3U\<newline>  #EXTINF:9,\<newline>seg0.ts\<newline>\<newline> http://h/s1.ts'' @ CHR 0x0D # ''\<newline>../s2.ts'']"
          "''list/index.m3u8''"
          "''#EXTM3U\<newline>  #EXTINF:9,\<newline>seg0.ts\<newline>\<newline> http://h/s1.ts'' @ CHR 0x0D # ''\<newline>../s2.ts''"
          1 "''http://h/s1.ts''"]
    extract_segments_resolves_reference
      [of "[''list/index.m3u8'' \<mapsto>
             ''#EXTM3U\<newline>  #EXTINF:9,\<newline>seg0.ts\<newline>\<newline> http://h/s1.ts'' @ CHR 0x0D # ''\<newline>../s2.ts'']"
          "''list/index.m3u8''"
          "''#EXTM3U\<newline>  #EXTINF:9,\<newline>seg0.ts\<newline>\<newline> http://h/s1.ts'' @ CHR 0x0D # ''\<newline>../s2.ts''"
          2 "''../s2.ts''"]
  by (simp add: extract_segments_def file_lines_def strip_def lstrip_def rstrip_def isspace_def
      dirname_def path_join_def endswith_def)

section \<open>Properties of the download scheduler\<close>

lemma digit_char_inj:
  assumes "a < 10" and "b < 10" and "digit_char a = digit_char b"
  shows "a = b"
proof -
  have c: "\<And>n::nat. n < 10 \<Longrightarrow> n \<in> {0, 1, 2, 3, 4, 5, 6, 7, 8, 9}" by auto
  show ?thesis
    using c [OF assms(1)] c [OF assms(2)] assms(3)
    by (auto simp add: digit_char_def)
qed

lemma str_not_Nil: "str n \<noteq> []"
  by (subst str.simps) simp

lemma str_inj: "str a = str b \<Longrightarrow> a = b"
proof (induction a arbitrary: b rule: str.induct)
  case (1 a)
  show ?case
  proof (cases "a < 10")
    case True
    then have a: "str a = [digit_char a]" by (subst str.simps) simp
    show ?thesis
    proof (cases "b < 10")
      case b: True
      then have "str b = [digit_char b]" by (subst str.simps) simp
      then show ?thesis using a "1.prems" True b digit_char_inj by simp
    next
      case b: False
      then have "str b = str (b div 10) @ [digit_char (b mod 10)]" by (subst str.simps) simp
      then show ?thesis using a "1.prems" str_not_Nil [of "b div 10"] by simp
    qed
  next
    case False
    then have a: "str a = str (a div 10) @ [digit_char (a mod 10)]" by (subst str.simps) simp
    show ?thesis
    proof (cases "b < 10")
      case b: True
      then have "str b = [digit_char b]" by (subst str.simps) simp
      then show ?thesis using a "1.prems" str_not_Nil [of "a div 10"] by simp
    next
      case b: False
      then have "str b = str (b div 10) @ [digit_char (b mod 10)]" by (subst str.simps) simp
      then have e: "str (a div 10) = str (b div 10)" "digit_char (a mod 10) = digit_char (b mod 10)"
        using a "1.prems" by simp_all
      have "a div 10 = b div 10" using "1.IH" [OF False e(1)] .
      moreover have "a mod 10 = b mod 10" using e(2) digit_char_inj [of "a mod 10" "b mod 10"] by simp
      ultimately show ?thesis by (metis div_mult_mod_eq)
    qed
  qed
qed

lemma submit_loop_eq:
  "submit_loop H fls segment_info output_dir es (downloaded_segments, future_to_index) =
     (downloaded_segments @
        map (\<lambda>(i, seg). (i, segment_path output_dir i))
          (filter (\<lambda>(i, seg). already_done H fls segment_info output_dir i) es),
      future_to_index @
        map (\<lambda>(i, seg). (i, seg, segment_path output_dir i))
          (filter (\<lambda>(i, seg). \<not> already_done H fls segment_info output_dir i) es))"
  by (induction es arbitrary: downloaded_segments future_to_index) (auto simp add: Let_def)

lemma mset_as_completed: "mset (as_completed sched xs) = mset xs"
proof (induction sched xs rule: as_completed.induct)
  case (3 k sched x xs)
  let ?l = "x # xs"
  let ?j = "k mod length ?l"
  have j: "?j < length ?l" by simp
  have "mset ?l = mset (take ?j ?l @ ?l ! ?j # drop (Suc ?j) ?l)"
    using id_take_nth_drop [OF j] by simp
  then show ?case
    using "3.IH" [of ?j] by (simp add: Let_def del: take_Suc_Cons drop_Suc_Cons nth_Cons_Suc mod_Suc)
qed simp_all

lemma distinct_mset_subset:
  assumes "mset ys \<subseteq># mset xs" and "distinct xs"
  shows "distinct ys"
proof -
  have "count (mset ys) a \<le> 1" for a
  proof -
    have "count (mset ys) a \<le> count (mset xs) a"
      using assms(1) by (simp add: mset_subset_eq_count)
    also have "\<dots> \<le> 1"
      using assms(2) by (simp add: distinct_count_atmost_1)
    finally show ?thesis .
  qed
  then have "count (mset ys) a = (if a \<in> set ys then 1 else 0)" for a
    using count_mset_0_iff [of ys a] by (cases "a \<in> set ys") (auto simp add: le_Suc_eq)
  then show ?thesis
    by (simp add: distinct_count_atmost_1)
qed

lemma result_loop_shape:
  "result_loop H net segments output_dir cs (fls, downloaded_segments, segment_info) =
     (fls', downloaded_segments', segment_info') \<Longrightarrow>
   \<exists>ok. downloaded_segments' = downloaded_segments @ map (\<lambda>i. (i, segment_path output_dir i)) ok
      \<and> mset ok \<subseteq># mset (map fst cs)
      \<and> fst ` set segment_info' = fst ` set segment_info \<union> str ` set ok
      \<and> (\<forall>k. k \<notin> str ` set ok \<longrightarrow> map_of segment_info' k = map_of segment_info k)"
proof (induction cs arbitrary: fls downloaded_segments segment_info)
  case Nil
  then show ?case by (auto intro: exI [of _ "[]"])
next
  case (Cons c cs)
  obtain segment_index seg output_filename where c: "c = (segment_index, seg, output_filename)"
    by (cases c) auto
  obtain fls1 r where r: "download_segment H net fls seg output_filename = (fls1, r)"
    by (cases "download_segment H net fls seg output_filename") auto
  show ?case
  proof (cases "\<exists>md5. r = Inr (Some md5) \<and> md5 \<noteq> []")
    case True
    then obtain md5 where m: "r = Inr (Some md5)" "md5 \<noteq> []" by auto
    let ?info = "AList.update (str segment_index) \<lparr>url_of = segments ! segment_index, md5_of = md5\<rparr> segment_info"
    have "result_loop H net segments output_dir cs
            (fls1, downloaded_segments @ [(segment_index, segment_path output_dir segment_index)], ?info)
          = (fls', downloaded_segments', segment_info')"
      using Cons.prems c r m by simp
    from Cons.IH [OF this] obtain ok where ok:
      "downloaded_segments' = (downloaded_segments @ [(segment_index, segment_path output_dir segment_index)])
          @ map (\<lambda>i. (i, segment_path output_dir i)) ok"
      "mset ok \<subseteq># mset (map fst cs)"
      "fst ` set segment_info' = fst ` set ?info \<union> str ` set ok"
      "\<forall>k. k \<notin> str ` set ok \<longrightarrow> map_of segment_info' k = map_of ?info k"
      by blast
    show ?thesis
      apply (rule exI [of _ "segment_index # ok"])
      using ok c by (auto simp add: dom_update update_conv')
  next
    case False
    then have "result_loop H net segments output_dir cs (fls1, downloaded_segments, segment_info)
          = (fls', downloaded_segments', segment_info')"
      using Cons.prems c r by (auto split: sum.splits option.splits if_splits)
    from Cons.IH [OF this] obtain ok where ok:
      "downloaded_segments' = downloaded_segments @ map (\<lambda>i. (i, segment_path output_dir i)) ok"
      "mset ok \<subseteq># mset (map fst cs)"
      "fst ` set segment_info' = fst ` set segment_info \<union> str ` set ok"
      "\<forall>k. k \<notin> str ` set ok \<longrightarrow> map_of segment_info' k = map_of segment_info k"
      by blast
    show ?thesis
      apply (rule exI [of _ ok])
      using ok c by (auto intro: subset_mset.order_trans)
  qed
qed


lemma enumerate_filter_fst:
  "map fst (filter (\<lambda>(i, seg). P i) (enumerate 0 xs)) = filter P [0..<length xs]"
proof -
  have "filter (\<lambda>(i, seg). P i) (enumerate 0 xs) = filter (P \<circ> fst) (enumerate 0 xs)"
    by (rule filter_cong) auto
  then show ?thesis
    by (simp add: filter_map [symmetric])
qed

lemma download_segments_in_parallel_shape:
  assumes "download_segments_in_parallel H net sched d segments output_dir num_threads = Inr (result, d')"
  shows "\<exists>loaded ok fls persisted.
      load_segment_info d (path_join output_dir ''segment_info.json'') = Inr loaded
    \<and> 0 < num_threads
    \<and> result = sort_key fst (map (\<lambda>i. (i, segment_path output_dir i))
        (filter (already_done H (files_of d) loaded output_dir) [0..<length segments] @ ok))
    \<and> mset ok \<subseteq># mset (filter (\<lambda>i. \<not> already_done H (files_of d) loaded output_dir i) [0..<length segments])
    \<and> d' = d\<lparr>files_of := fls,
             documents_of := (documents_of d)(path_join output_dir ''segment_info.json'' \<mapsto> Document persisted)\<rparr>
    \<and> fst ` set persisted = fst ` set loaded \<union> str ` set ok
    \<and> (\<forall>k. k \<notin> str ` set ok \<longrightarrow> map_of persisted k = map_of loaded k)"
proof -
  let ?p = "path_join output_dir ''segment_info.json''"
  obtain loaded where l: "load_segment_info d ?p = Inr loaded"
    using assms by (cases "load_segment_info d ?p") (simp_all add: download_segments_in_parallel_def)
  have n: "0 < num_threads"
    using assms l by (simp add: download_segments_in_parallel_def split: if_splits)
  let ?done = "already_done H (files_of d) loaded output_dir"
  let ?skipped = "map (\<lambda>(i, seg). (i, segment_path output_dir i))
                    (filter (\<lambda>(i, seg). ?done i) (enumerate 0 segments))"
  let ?futures = "map (\<lambda>(i, seg). (i, seg, segment_path output_dir i))
                    (filter (\<lambda>(i, seg). \<not> ?done i) (enumerate 0 segments))"
  have s: "submit_loop H (files_of d) loaded output_dir (enumerate 0 segments) ([], [])
             = (?skipped, ?futures)"
    by (simp add: submit_loop_eq)
  obtain fls downloaded persisted where r:
    "result_loop H net segments output_dir (as_completed sched ?futures) (files_of d, ?skipped, loaded)
       = (fls, downloaded, persisted)"
    using prod_cases3 by blast
  have res: "result = sort_key fst downloaded"
    and d': "d' = d\<lparr>files_of := fls, documents_of := (documents_of d)(?p \<mapsto> Document persisted)\<rparr>"
    using assms l n s r by (simp_all add: download_segments_in_parallel_def)
  obtain ok where ok:
    "downloaded = ?skipped @ map (\<lambda>i. (i, segment_path output_dir i)) ok"
    "mset ok \<subseteq># mset (map fst (as_completed sched ?futures))"
    "fst ` set persisted = fst ` set loaded \<union> str ` set ok"
    "\<forall>k. k \<notin> str ` set ok \<longrightarrow> map_of persisted k = map_of loaded k"
    using result_loop_shape [OF r] by blast
  have sk: "?skipped = map (\<lambda>i. (i, segment_path output_dir i)) (filter ?done [0..<length segments])"
    unfolding enumerate_filter_fst [of ?done segments, symmetric]
    by (simp add: case_prod_beta)
  have "mset (map fst (as_completed sched ?futures)) = mset (map fst ?futures)"
    by (simp only: mset_map mset_as_completed)
  also have "map fst ?futures = map fst (filter (\<lambda>(i, seg). \<not> ?done i) (enumerate 0 segments))"
    by (simp add: case_prod_beta)
  also have "\<dots> = filter (\<lambda>i. \<not> ?done i) [0..<length segments]"
    by (rule enumerate_filter_fst)
  finally have fu: "mset (map fst (as_completed sched ?futures))
                      = mset (filter (\<lambda>i. \<not> ?done i) [0..<length segments])" .
  show ?thesis
    apply (rule exI [of _ loaded], rule exI [of _ ok], rule exI [of _ fls], rule exI [of _ persisted])
    using l n res d' ok fu sk by simp
qed

lemma result_loop_keys:
  assumes "result_loop H net segments output_dir cs (fls, downloaded_segments, segment_info) =
     (fls', downloaded_segments', segment_info')"
  shows "fst ` set segment_info \<subseteq> fst ` set segment_info'"
    and "fst ` set segment_info' \<subseteq> fst ` set segment_info \<union> str ` fst ` set cs"
proof -
  obtain ok where ok: "mset ok \<subseteq># mset (map fst cs)"
    "fst ` set segment_info' = fst ` set segment_info \<union> str ` set ok"
    using result_loop_shape [OF assms] by blast
  show "fst ` set segment_info \<subseteq> fst ` set segment_info'"
    unfolding ok(2) by (rule Un_upper1)
  have "set ok \<subseteq> set (map fst cs)"
    using set_mset_mono [OF ok(1)] by (simp only: set_mset_mset)
  then have "str ` set ok \<subseteq> str ` fst ` set cs"
    by (simp add: image_mono)
  then show "fst ` set segment_info' \<subseteq> fst ` set segment_info \<union> str ` fst ` set cs"
    unfolding ok(2) by (rule Un_mono [OF subset_refl])
qed

lemma future_indices:
  assumes "submit_loop H fls segment_info output_dir (enumerate 0 segments) ([], [])
             = (skipped, future_to_index)"
  shows "fst ` set future_to_index \<subseteq> {0..<length segments}"
proof -
  let ?done = "already_done H fls segment_info output_dir"
  have fu: "future_to_index = map (\<lambda>(i, seg). (i, seg, segment_path output_dir i))
                    (filter (\<lambda>(i, seg). \<not> ?done i) (enumerate 0 segments))"
    using assms by (simp add: submit_loop_eq)
  have "map fst future_to_index = filter (\<lambda>i. \<not> ?done i) [0..<length segments]"
    unfolding fu enumerate_filter_fst [of "\<lambda>i. \<not> ?done i" segments, symmetric]
    by (simp add: case_prod_beta)
  from arg_cong [OF this, of set] show ?thesis by auto
qed

lemma replicate_numeral_Cons: "replicate (numeral k) x = x # replicate (pred_numeral k) x"
  by (simp add: numeral_eq_Suc)

lemmas scheduler_defs = replicate_numeral_Cons
  download_segments_in_parallel_def load_segment_info_def already_done_def segment_path_def
  path_join_def endswith_def format_05d_def str.simps digit_char_def
  download_segment_def raise_for_status_def total_size_of_def stream_to_file_def
  calculate_file_md5_def request_failed_def Let_def

lemma example_run:
  "download_segments_in_parallel (\<lambda>content. ''md5:'' @ str (length content))
     (\<lambda>u. if u = ''http://h/s1.ts'' then RequestException else Response 200 (Length 2) (Chunk [1, 2] End))
     [2, 0]
     \<lparr>files_of = [''out/segment_00000.ts'' \<mapsto> [1, 2, 3]],
      documents_of = [''out/segment_info.json'' \<mapsto> Document
       [(''0'', \<lparr>url_of = ''http://h/s0.ts'', md5_of = ''md5:3''\<rparr>),
        (''1'', \<lparr>url_of = ''http://h/s1.ts'', md5_of = ''md5:5''\<rparr>),
        (''7'', \<lparr>url_of = ''http://h/s7.ts'', md5_of = ''md5:9''\<rparr>)]]\<rparr>
     [''http://h/s0.ts'', ''http://h/s1.ts'', ''http://h/s2.ts'', ''http://h/s3.ts''] ''out'' 8
   = Inr ([(0, ''out/segment_00000.ts''), (2, ''out/segment_00002.ts''), (3, ''out/segment_00003.ts'')],
     \<lparr>files_of = [''out/segment_00000.ts'' \<mapsto> [1, 2, 3], ''out/segment_00003.ts'' \<mapsto> [1, 2], ''out/segment_00002.ts'' \<mapsto> [1, 2]],
      documents_of = [''out/segment_info.json'' \<mapsto> Document
       [(''0'', \<lparr>url_of = ''http://h/s0.ts'', md5_of = ''md5:3''\<rparr>),
        (''1'', \<lparr>url_of = ''http://h/s1.ts'', md5_of = ''md5:5''\<rparr>),
        (''7'', \<lparr>url_of = ''http://h/s7.ts'', md5_of = ''md5:9''\<rparr>),
        (''3'', \<lparr>url_of = ''http://h/s3.ts'', md5_of = ''md5:2''\<rparr>),
        (''2'', \<lparr>url_of = ''http://h/s2.ts'', md5_of = ''md5:2''\<rparr>)]]\<rparr>)"
  by (simp add: scheduler_defs)

lemma str_outside_range: "n \<le> i \<Longrightarrow> str i \<notin> str ` {0..<n}"
  by (auto dest: str_inj)



text \<open>
  C4. Whatever the list of locators and whatever the order in which the downloads
  finish (the schedule \<open>sched\<close>), the list the scheduler returns is strictly
  ascending in the segment index: sorted, with no index twice. Every index is one
  of the list of locators and is paired with the file of that segment.
\<close>

theorem download_segments_in_parallel_sorted:
  assumes "download_segments_in_parallel H net sched d segments output_dir num_threads = Inr (result, d')"
  shows "sorted_wrt (<) (map fst result)
       \<and> distinct (map fst result)
       \<and> fst ` set result \<subseteq> {0..<length segments}
       \<and> (\<forall>(i, filename) \<in> set result. filename = segment_path output_dir i)"
proof -
  obtain loaded ok where
    r: "result = sort_key fst (map (\<lambda>i. (i, segment_path output_dir i))
        (filter (already_done H (files_of d) loaded output_dir) [0..<length segments] @ ok))"
    and ok: "mset ok \<subseteq># mset (filter (\<lambda>i. \<not> already_done H (files_of d) loaded output_dir i) [0..<length segments])"
    using download_segments_in_parallel_shape [OF assms] by blast
  let ?done = "already_done H (files_of d) loaded output_dir"
  let ?is = "filter ?done [0..<length segments] @ ok"
  have "distinct ok"
    using ok by (rule distinct_mset_subset) simp
  moreover have s: "set ok \<subseteq> {i. i < length segments \<and> \<not> ?done i}"
    using set_mset_mono [OF ok] by auto
  ultimately have d: "distinct ?is" by auto
  have "map fst (map (\<lambda>i. (i, segment_path output_dir i)) ?is) = ?is"
    by (simp add: comp_def)
  moreover have "mset (map fst result) = mset (map fst (map (\<lambda>i. (i, segment_path output_dir i)) ?is))"
    by (simp only: r mset_map mset_sort)
  ultimately have m: "mset (map fst result) = mset ?is"
    by simp
  have "distinct (map fst result)"
    using d mset_eq_imp_distinct_iff [OF m] by simp
  moreover have "sorted (map fst result)"
    unfolding r by (rule sorted_sort_key)
  moreover have "fst ` set result \<subseteq> {0..<length segments}"
    using mset_eq_setD [OF m] s by auto
  moreover have "\<forall>(i, filename) \<in> set result. filename = segment_path output_dir i"
    unfolding r by auto
  ultimately show ?thesis
    by (simp add: strict_sorted_iff)
qed

theorem download_segments_in_parallel_sorted_witness:
  "download_segments_in_parallel (\<lambda>content. ''md5:'' @ str (length content))
     (\<lambda>u. if u = ''http://h/s1.ts'' then RequestException else Response 200 (Length 2) (Chunk [1, 2] End))
     [2, 0]
     \<lparr>files_of = [''out/segment_00000.ts'' \<mapsto> [1, 2, 3]],
      documents_of = [''out/segment_info.json'' \<mapsto> Document
       [(''0'', \<lparr>url_of = ''http://h/s0.ts'', md5_of = ''md5:3''\<rparr>),
        (''1'', \<lparr>url_of = ''http://h/s1.ts'', md5_of = ''md5:5''\<rparr>),
        (''7'', \<lparr>url_of = ''http://h/s7.ts'', md5_of = ''md5:9''\<rparr>)]]\<rparr>
     [''http://h/s0.ts'', ''http://h/s1.ts'', ''http://h/s2.ts'', ''http://h/s3.ts''] ''out'' 8
   = Inr ([(0, ''out/segment_00000.ts''), (2, ''out/segment_00002.ts''), (3, ''out/segment_00003.ts'')],
     \<lparr>files_of = [''out/segment_00000.ts'' \<mapsto> [1, 2, 3], ''out/segment_00003.ts'' \<mapsto> [1, 2], ''out/segment_00002.ts'' \<mapsto> [1, 2]],
      documents_of = [''out/segment_info.json'' \<mapsto> Document
       [(''0'', \<lparr>url_of = ''http://h/s0.ts'', md5_of = ''md5:3''\<rparr>),
        (''1'', \<lparr>url_of = ''http://h/s1.ts'', md5_of = ''md5:5''\<rparr>),
        (''7'', \<lparr>url_of = ''http://h/s7.ts'', md5_of = ''md5:9''\<rparr>),
        (''3'', \<lparr>url_of = ''http://h/s3.ts'', md5_of = ''md5:2''\<rparr>),
        (''2'', \<lparr>url_of = ''http://h/s2.ts'', md5_of = ''md5:2''\<rparr>)]]\<rparr>)
   \<and> sorted_wrt (<) (map fst [(0 :: nat, ''out/segment_00000.ts''), (2, ''out/segment_00002.ts''), (3, ''out/segment_00003.ts'')])
   \<and> distinct (map fst [(0 :: nat, ''out/segment_00000.ts''), (2, ''out/segment_00002.ts''), (3, ''out/segment_00003.ts'')])
   \<and> fst ` set [(0 :: nat, ''out/segment_00000.ts''), (2, ''out/segment_00002.ts''), (3, ''out/segment_00003.ts'')]
       \<subseteq> {0..<length [''http://h/s0.ts'', ''http://h/s1.ts'', ''http://h/s2.ts'', ''http://h/s3.ts'']}"
proof -
  note sorted = download_segments_in_parallel_sorted [OF example_run]
  show ?thesis
    using sorted [THEN conjunct1] sorted [THEN conjunct2, THEN conjunct1]
      sorted [THEN conjunct2, THEN conjunct2, THEN conjunct1]
      example_run
    by simp
qed

text \<open>
  C6, as the claim states it, fails: \<open>json.load\<close> is called with no handler, so a
  ledger document that is not JSON makes the scheduler raise before it looks at any
  segment. The same run with no ledger document at all succeeds.
\<close>

theorem download_segments_in_parallel_ledger_load_counterexample:
  "download_segments_in_parallel (\<lambda>content. ''md5:'' @ str (length content))
     (\<lambda>u. if u = ''http://h/s1.ts'' then RequestException else Response 200 (Length 2) (Chunk [1, 2] End))
     []
     \<lparr>files_of = Map.empty, documents_of = [''out/segment_info.json'' \<mapsto> Unreadable]\<rparr>
     [''http://h/s0.ts''] ''out'' 8
   = Inl JSONDecodeError
   \<and> download_segments_in_parallel (\<lambda>content. ''md5:'' @ str (length content))
     (\<lambda>u. if u = ''http://h/s1.ts'' then RequestException else Response 200 (Length 2) (Chunk [1, 2] End))
     []
     \<lparr>files_of = Map.empty, documents_of = Map.empty\<rparr>
     [''http://h/s0.ts''] ''out'' 8
   = Inr ([(0, ''out/segment_00000.ts'')],
     \<lparr>files_of = [''out/segment_00000.ts'' \<mapsto> [1, 2]],
      documents_of = [''out/segment_info.json'' \<mapsto> Document
       [(''0'', \<lparr>url_of = ''http://h/s0.ts'', md5_of = ''md5:2''\<rparr>)]]\<rparr>)"
  by (simp add: scheduler_defs)

text \<open>
  C6, amended. A run directory with no ledger document is treated as no prior
  progress: the scheduler behaves as with a document holding the empty ledger. A
  ledger document that exists but is unreadable makes the scheduler raise the error
  of \<open>json.load\<close>; nothing is fetched and nothing is written. With a ledger that is
  missing or readable, and a pool of at least one worker, the scheduler returns.
\<close>

theorem download_segments_in_parallel_ledger_load:
  "(documents_of d (path_join output_dir ''segment_info.json'') = Some Unreadable \<longrightarrow>
      download_segments_in_parallel H net sched d segments output_dir num_threads = Inl JSONDecodeError)
 \<and> (documents_of d (path_join output_dir ''segment_info.json'') = None \<longrightarrow>
      download_segments_in_parallel H net sched d segments output_dir num_threads =
      download_segments_in_parallel H net sched
        (d\<lparr>documents_of := (documents_of d)(path_join output_dir ''segment_info.json'' \<mapsto> Document [])\<rparr>)
        segments output_dir num_threads)
 \<and> (documents_of d (path_join output_dir ''segment_info.json'') \<noteq> Some Unreadable \<and> 0 < num_threads \<longrightarrow>
      (\<exists>result d'. download_segments_in_parallel H net sched d segments output_dir num_threads
          = Inr (result, d')))"
  by (auto simp add: download_segments_in_parallel_def load_segment_info_def Let_def
      split: option.splits json_document.splits prod.splits)

theorem download_segments_in_parallel_ledger_load_witness:
  "documents_of \<lparr>files_of = Map.empty, documents_of = [''out/segment_info.json'' \<mapsto> Unreadable]\<rparr>
     (path_join ''out'' ''segment_info.json'') = Some Unreadable
   \<and> download_segments_in_parallel (\<lambda>content. ''md5:'' @ str (length content))
     (\<lambda>u. if u = ''http://h/s1.ts'' then RequestException else Response 200 (Length 2) (Chunk [1, 2] End))
     []
     \<lparr>files_of = Map.empty, documents_of = [''out/segment_info.json'' \<mapsto> Unreadable]\<rparr>
     [''http://h/s0.ts''] ''out'' 8
   = Inl JSONDecodeError
   \<and> documents_of \<lparr>files_of = Map.empty, documents_of = Map.empty\<rparr>
     (path_join ''out'' ''segment_info.json'') = None
   \<and> download_segments_in_parallel (\<lambda>content. ''md5:'' @ str (length content))
     (\<lambda>u. if u = ''http://h/s1.ts'' then RequestException else Response 200 (Length 2) (Chunk [1, 2] End))
     []
     \<lparr>files_of = Map.empty, documents_of = Map.empty\<rparr>
     [''http://h/s0.ts''] ''out'' 8
   = download_segments_in_parallel (\<lambda>content. ''md5:'' @ str (length content))
     (\<lambda>u. if u = ''http://h/s1.ts'' then RequestException else Response 200 (Length 2) (Chunk [1, 2] End))
     []
     \<lparr>files_of = Map.empty, documents_of = [''out/segment_info.json'' \<mapsto> Document []]\<rparr>
     [''http://h/s0.ts''] ''out'' 8
   \<and> download_segments_in_parallel (\<lambda>content. ''md5:'' @ str (length content))
     (\<lambda>u. if u = ''http://h/s1.ts'' then RequestException else Response 200 (Length 2) (Chunk [1, 2] End))
     []
     \<lparr>files_of = Map.empty, documents_of = Map.empty\<rparr>
     [''http://h/s0.ts''] ''out'' 8
   = Inr ([(0, ''out/segment_00000.ts'')],
     \<lparr>files_of = [''out/segment_00000.ts'' \<mapsto> [1, 2]],
      documents_of = [''out/segment_info.json'' \<mapsto> Document
       [(''0'', \<lparr>url_of = ''http://h/s0.ts'', md5_of = ''md5:2''\<rparr>)]]\<rparr>)"
  using
    download_segments_in_parallel_ledger_load [where d = "\<lparr>files_of = Map.empty, documents_of = [''out/segment_info.json'' \<mapsto> Unreadable]\<rparr>"
      and output_dir = "''out''" and H = "(\<lambda>content. ''md5:'' @ str (length content))"
      and net = "(\<lambda>u. if u = ''http://h/s1.ts'' then RequestException else Response 200 (Length 2) (Chunk [1, 2] End))"
      and sched = "[]" and segments = "[''http://h/s0.ts'']" and num_threads = 8]
    download_segments_in_parallel_ledger_load [where d = "\<lparr>files_of = Map.empty, documents_of = Map.empty\<rparr>"
      and output_dir = "''out''" and H = "(\<lambda>content. ''md5:'' @ str (length content))"
      and net = "(\<lambda>u. if u = ''http://h/s1.ts'' then RequestException else Response 200 (Length 2) (Chunk [1, 2] End))"
      and sched = "[]" and segments = "[''http://h/s0.ts'']" and num_threads = 8]
  by (simp add: scheduler_defs)

text \<open>
  C7, as the claim states it, fails: the scheduler never checks or prunes the keys
  it loads. A ledger left by a run over two segments is loaded for a list of one
  segment; the key \<open>1\<close> is outside the index range of that list, and it is in the
  ledger the scheduler persists.
\<close>

theorem ledger_keys_within_loaded_and_range_counterexample:
  "download_segments_in_parallel (\<lambda>content. ''md5:'' @ str (length content))
     (\<lambda>u. if u = ''http://h/s1.ts'' then RequestException else Response 200 (Length 2) (Chunk [1, 2] End))
     []
     \<lparr>files_of = [''out/segment_00000.ts'' \<mapsto> [1, 2, 3]],
      documents_of = [''out/segment_info.json'' \<mapsto> Document
       [(''0'', \<lparr>url_of = ''http://h/s0.ts'', md5_of = ''md5:3''\<rparr>),
        (''1'', \<lparr>url_of = ''http://h/s1.ts'', md5_of = ''md5:5''\<rparr>)]]\<rparr>
     [''http://h/s0.ts''] ''out'' 8
   = Inr ([(0, ''out/segment_00000.ts'')],
     \<lparr>files_of = [''out/segment_00000.ts'' \<mapsto> [1, 2, 3]],
      documents_of = [''out/segment_info.json'' \<mapsto> Document
       [(''0'', \<lparr>url_of = ''http://h/s0.ts'', md5_of = ''md5:3''\<rparr>),
        (''1'', \<lparr>url_of = ''http://h/s1.ts'', md5_of = ''md5:5''\<rparr>)]]\<rparr>)
   \<and> documents_of
       \<lparr>files_of = [''out/segment_00000.ts'' \<mapsto> [1, 2, 3]],
      documents_of = [''out/segment_info.json'' \<mapsto> Document
       [(''0'', \<lparr>url_of = ''http://h/s0.ts'', md5_of = ''md5:3''\<rparr>),
        (''1'', \<lparr>url_of = ''http://h/s1.ts'', md5_of = ''md5:5''\<rparr>)]]\<rparr>
       ''out/segment_info.json''
     = Some (Document
       [(''0'', \<lparr>url_of = ''http://h/s0.ts'', md5_of = ''md5:3''\<rparr>),
        (''1'', \<lparr>url_of = ''http://h/s1.ts'', md5_of = ''md5:5''\<rparr>)])
   \<and> \<not> fst ` set
       [(''0'', \<lparr>url_of = ''http://h/s0.ts'', md5_of = ''md5:3''\<rparr>),
        (''1'', \<lparr>url_of = ''http://h/s1.ts'', md5_of = ''md5:5''\<rparr>)]
       \<subseteq> str ` {0..<length [''http://h/s0.ts'']}"
proof -
  have "str 1 \<notin> str ` {0..<length [''http://h/s0.ts'']}"
    by (rule str_outside_range) simp
  then have "\<not> fst ` set
       [(''0'', \<lparr>url_of = ''http://h/s0.ts'', md5_of = ''md5:3''\<rparr>),
        (''1'', \<lparr>url_of = ''http://h/s1.ts'', md5_of = ''md5:5''\<rparr>)]
       \<subseteq> str ` {0..<length [''http://h/s0.ts'']}"
    by (simp add: str.simps digit_char_def)
  moreover have "download_segments_in_parallel (\<lambda>content. ''md5:'' @ str (length content))
     (\<lambda>u. if u = ''http://h/s1.ts'' then RequestException else Response 200 (Length 2) (Chunk [1, 2] End))
     []
     \<lparr>files_of = [''out/segment_00000.ts'' \<mapsto> [1, 2, 3]],
      documents_of = [''out/segment_info.json'' \<mapsto> Document
       [(''0'', \<lparr>url_of = ''http://h/s0.ts'', md5_of = ''md5:3''\<rparr>),
        (''1'', \<lparr>url_of = ''http://h/s1.ts'', md5_of = ''md5:5''\<rparr>)]]\<rparr>
     [''http://h/s0.ts''] ''out'' 8
   = Inr ([(0, ''out/segment_00000.ts'')],
     \<lparr>files_of = [''out/segment_00000.ts'' \<mapsto> [1, 2, 3]],
      documents_of = [''out/segment_info.json'' \<mapsto> Document
       [(''0'', \<lparr>url_of = ''http://h/s0.ts'', md5_of = ''md5:3''\<rparr>),
        (''1'', \<lparr>url_of = ''http://h/s1.ts'', md5_of = ''md5:5''\<rparr>)]]\<rparr>)"
    by (simp add: scheduler_defs)
  ultimately show ?thesis
    by simp
qed

text \<open>
  C7, amended. The scheduler adds to the ledger only keys \<open>str(i)\<close> of indices of the
  current list of locators, and removes none. So at every point after the ledger
  is loaded (after any number \<open>k\<close> of finished downloads) and in the ledger document
  persisted at batch end, every key is a key of the loaded ledger or the decimal
  string of an index in the range from 0 to the segment count; when the keys of the
  loaded ledger lie in that range (as with no prior ledger), so do the keys at every
  point and in the persisted document.
\<close>

theorem ledger_keys_within_loaded_and_range:
  assumes "load_segment_info d (path_join output_dir ''segment_info.json'') = Inr loaded"
    and "submit_loop H (files_of d) loaded output_dir (enumerate 0 segments) ([], [])
           = (skipped, future_to_index)"
    and "result_loop H net segments output_dir (take k (as_completed sched future_to_index))
           (files_of d, skipped, loaded) = (fls, downloaded_segments, segment_info)"
    and "download_segments_in_parallel H net sched d segments output_dir num_threads = Inr (result, d')"
  shows "fst ` set segment_info \<subseteq> fst ` set loaded \<union> str ` {0..<length segments}
       \<and> (\<exists>persisted.
            documents_of d' (path_join output_dir ''segment_info.json'') = Some (Document persisted)
          \<and> fst ` set persisted \<subseteq> fst ` set loaded \<union> str ` {0..<length segments}
          \<and> (fst ` set loaded \<subseteq> str ` {0..<length segments} \<longrightarrow>
                fst ` set segment_info \<subseteq> str ` {0..<length segments}
              \<and> fst ` set persisted \<subseteq> str ` {0..<length segments}))"
proof -
  let ?range = "str ` {0..<length segments}"
  have "set (take k (as_completed sched future_to_index)) \<subseteq> set (as_completed sched future_to_index)"
    by (rule set_take_subset)
  also have "\<dots> = set future_to_index"
    using mset_eq_setD [OF mset_as_completed] .
  finally have "fst ` set (take k (as_completed sched future_to_index)) \<subseteq> {0..<length segments}"
    using future_indices [OF assms(2)] by blast
  then have a: "fst ` set segment_info \<subseteq> fst ` set loaded \<union> ?range"
    using result_loop_keys(2) [OF assms(3)] by blast
  obtain loaded' ok persisted fls' where
    l: "load_segment_info d (path_join output_dir ''segment_info.json'') = Inr loaded'"
    and ok: "mset ok \<subseteq># mset (filter (\<lambda>i. \<not> already_done H (files_of d) loaded' output_dir i) [0..<length segments])"
    and d': "d' = d\<lparr>files_of := fls',
             documents_of := (documents_of d)(path_join output_dir ''segment_info.json'' \<mapsto> Document persisted)\<rparr>"
    and p: "fst ` set persisted = fst ` set loaded' \<union> str ` set ok"
    using download_segments_in_parallel_shape [OF assms(4)] by (elim exE conjE) (rule that)
  have "loaded' = loaded" using l assms(1) by simp
  moreover have "set ok \<subseteq> {0..<length segments}"
    using set_mset_mono [OF ok] by auto
  ultimately have b: "fst ` set persisted \<subseteq> fst ` set loaded \<union> ?range"
    unfolding p by (simp add: image_mono le_supI2)
  have c: "documents_of d' (path_join output_dir ''segment_info.json'') = Some (Document persisted)"
    using d' by simp
  have e: "fst ` set segment_info \<subseteq> ?range \<and> fst ` set persisted \<subseteq> ?range"
    if "fst ` set loaded \<subseteq> ?range"
  proof -
    have "fst ` set loaded \<union> ?range \<subseteq> ?range"
      using that by simp
    then show ?thesis
      using order_trans [OF a] order_trans [OF b] by simp
  qed
  show ?thesis
  proof (rule conjI [OF a], rule exI [of _ persisted], intro conjI impI)
    show "documents_of d' (path_join output_dir ''segment_info.json'') = Some (Document persisted)"
      by (rule c)
    show "fst ` set persisted \<subseteq> fst ` set loaded \<union> ?range"
      by (rule b)
    show "fst ` set segment_info \<subseteq> ?range" if "fst ` set loaded \<subseteq> ?range"
      using e [OF that] by simp
    show "fst ` set persisted \<subseteq> ?range" if "fst ` set loaded \<subseteq> ?range"
      using e [OF that] by simp
  qed
qed

theorem ledger_keys_within_loaded_and_range_witness:
  "load_segment_info
     \<lparr>files_of = [''out/segment_00000.ts'' \<mapsto> [1, 2, 3]],
      documents_of = [''out/segment_info.json'' \<mapsto> Document
       [(''0'', \<lparr>url_of = ''http://h/s0.ts'', md5_of = ''md5:3''\<rparr>),
        (''1'', \<lparr>url_of = ''http://h/s1.ts'', md5_of = ''md5:5''\<rparr>)]]\<rparr>
     (path_join ''out'' ''segment_info.json'')
   = Inr [(''0'', \<lparr>url_of = ''http://h/s0.ts'', md5_of = ''md5:3''\<rparr>),
        (''1'', \<lparr>url_of = ''http://h/s1.ts'', md5_of = ''md5:5''\<rparr>)]
   \<and> submit_loop (\<lambda>content. ''md5:'' @ str (length content))
     (files_of \<lparr>files_of = [''out/segment_00000.ts'' \<mapsto> [1, 2, 3]],
      documents_of = [''out/segment_info.json'' \<mapsto> Document
       [(''0'', \<lparr>url_of = ''http://h/s0.ts'', md5_of = ''md5:3''\<rparr>),
        (''1'', \<lparr>url_of = ''http://h/s1.ts'', md5_of = ''md5:5''\<rparr>)]]\<rparr>)
     [(''0'', \<lparr>url_of = ''http://h/s0.ts'', md5_of = ''md5:3''\<rparr>),
        (''1'', \<lparr>url_of = ''http://h/s1.ts'', md5_of = ''md5:5''\<rparr>)]
     ''out'' (enumerate 0 [''http://h/s0.ts'', ''http://h/s1.ts'', ''http://h/s2.ts'', ''http://h/s3.ts'']) ([], [])
   = ([(0, ''out/segment_00000.ts'')],
      [(1, ''http://h/s1.ts'', ''out/segment_00001.ts''), (2, ''http://h/s2.ts'', ''out/segment_00002.ts''),
      (3, ''http://h/s3.ts'', ''out/segment_00003.ts'')])
   \<and> result_loop (\<lambda>content. ''md5:'' @ str (length content))
     (\<lambda>u. if u = ''http://h/s1.ts'' then RequestException else Response 200 (Length 2) (Chunk [1, 2] End))
     [''http://h/s0.ts'', ''http://h/s1.ts'', ''http://h/s2.ts'', ''http://h/s3.ts''] ''out''
     (take 1 (as_completed [2, 0]
     [(1, ''http://h/s1.ts'', ''out/segment_00001.ts''), (2, ''http://h/s2.ts'', ''out/segment_00002.ts''),
      (3, ''http://h/s3.ts'', ''out/segment_00003.ts'')]))
     (files_of \<lparr>files_of = [''out/segment_00000.ts'' \<mapsto> [1, 2, 3]],
      documents_of = [''out/segment_info.json'' \<mapsto> Document
       [(''0'', \<lparr>url_of = ''http://h/s0.ts'', md5_of = ''md5:3''\<rparr>),
        (''1'', \<lparr>url_of = ''http://h/s1.ts'', md5_of = ''md5:5''\<rparr>)]]\<rparr>,
      [(0, ''out/segment_00000.ts'')],
       [(''0'', \<lparr>url_of = ''http://h/s0.ts'', md5_of = ''md5:3''\<rparr>),
        (''1'', \<lparr>url_of = ''http://h/s1.ts'', md5_of = ''md5:5''\<rparr>)])
   = ([''out/segment_00000.ts'' \<mapsto> [1, 2, 3], ''out/segment_00003.ts'' \<mapsto> [1, 2]],
      [(0, ''out/segment_00000.ts''), (3, ''out/segment_00003.ts'')],
      [(''0'', \<lparr>url_of = ''http://h/s0.ts'', md5_of = ''md5:3''\<rparr>),
        (''1'', \<lparr>url_of = ''http://h/s1.ts'', md5_of = ''md5:5''\<rparr>),
        (''3'', \<lparr>url_of = ''http://h/s3.ts'', md5_of = ''md5:2''\<rparr>)])
   \<and> download_segments_in_parallel (\<lambda>content. ''md5:'' @ str (length content))
     (\<lambda>u. if u = ''http://h/s1.ts'' then RequestException else Response 200 (Length 2) (Chunk [1, 2] End))
     [2, 0]
     \<lparr>files_of = [''out/segment_00000.ts'' \<mapsto> [1, 2, 3]],
      documents_of = [''out/segment_info.json'' \<mapsto> Document
       [(''0'', \<lparr>url_of = ''http://h/s0.ts'', md5_of = ''md5:3''\<rparr>),
        (''1'', \<lparr>url_of = ''http://h/s1.ts'', md5_of = ''md5:5''\<rparr>)]]\<rparr>
     [''http://h/s0.ts'', ''http://h/s1.ts'', ''http://h/s2.ts'', ''http://h/s3.ts''] ''out'' 8
   = Inr ([(0, ''out/segment_00000.ts''), (2, ''out/segment_00002.ts''), (3, ''out/segment_00003.ts'')],
     \<lparr>files_of = [''out/segment_00000.ts'' \<mapsto> [1, 2, 3], ''out/segment_00003.ts'' \<mapsto> [1, 2], ''out/segment_00002.ts'' \<mapsto> [1, 2]],
      documents_of = [''out/segment_info.json'' \<mapsto> Document
       [(''0'', \<lparr>url_of = ''http://h/s0.ts'', md5_of = ''md5:3''\<rparr>),
        (''1'', \<lparr>url_of = ''http://h/s1.ts'', md5_of = ''md5:5''\<rparr>),
        (''3'', \<lparr>url_of = ''http://h/s3.ts'', md5_of = ''md5:2''\<rparr>),
        (''2'', \<lparr>url_of = ''http://h/s2.ts'', md5_of = ''md5:2''\<rparr>)]]\<rparr>)
   \<and> fst ` set [(''0'', \<lparr>url_of = ''http://h/s0.ts'', md5_of = ''md5:3''\<rparr>),
        (''1'', \<lparr>url_of = ''http://h/s1.ts'', md5_of = ''md5:5''\<rparr>)]
       \<subseteq> str ` {0..<length [''http://h/s0.ts'', ''http://h/s1.ts'', ''http://h/s2.ts'', ''http://h/s3.ts'']}
   \<and> fst ` set [(''0'', \<lparr>url_of = ''http://h/s0.ts'', md5_of = ''md5:3''\<rparr>),
        (''1'', \<lparr>url_of = ''http://h/s1.ts'', md5_of = ''md5:5''\<rparr>),
        (''3'', \<lparr>url_of = ''http://h/s3.ts'', md5_of = ''md5:2''\<rparr>)]
       \<subseteq> str ` {0..<length [''http://h/s0.ts'', ''http://h/s1.ts'', ''http://h/s2.ts'', ''http://h/s3.ts'']}
   \<and> fst ` set [(''0'', \<lparr>url_of = ''http://h/s0.ts'', md5_of = ''md5:3''\<rparr>),
        (''1'', \<lparr>url_of = ''http://h/s1.ts'', md5_of = ''md5:5''\<rparr>),
        (''3'', \<lparr>url_of = ''http://h/s3.ts'', md5_of = ''md5:2''\<rparr>),
        (''2'', \<lparr>url_of = ''http://h/s2.ts'', md5_of = ''md5:2''\<rparr>)]
       \<subseteq> str ` {0..<length [''http://h/s0.ts'', ''http://h/s1.ts'', ''http://h/s2.ts'', ''http://h/s3.ts'']}"
proof -
  have l: "load_segment_info
     \<lparr>files_of = [''out/segment_00000.ts'' \<mapsto> [1, 2, 3]],
      documents_of = [''out/segment_info.json'' \<mapsto> Document
       [(''0'', \<lparr>url_of = ''http://h/s0.ts'', md5_of = ''md5:3''\<rparr>),
        (''1'', \<lparr>url_of = ''http://h/s1.ts'', md5_of = ''md5:5''\<rparr>)]]\<rparr>
     (path_join ''out'' ''segment_info.json'')
   = Inr [(''0'', \<lparr>url_of = ''http://h/s0.ts'', md5_of = ''md5:3''\<rparr>),
        (''1'', \<lparr>url_of = ''http://h/s1.ts'', md5_of = ''md5:5''\<rparr>)]"
    by (simp add: scheduler_defs)
  have s: "submit_loop (\<lambda>content. ''md5:'' @ str (length content))
     (files_of \<lparr>files_of = [''out/segment_00000.ts'' \<mapsto> [1, 2, 3]],
      documents_of = [''out/segment_info.json'' \<mapsto> Document
       [(''0'', \<lparr>url_of = ''http://h/s0.ts'', md5_of = ''md5:3''\<rparr>),
        (''1'', \<lparr>url_of = ''http://h/s1.ts'', md5_of = ''md5:5''\<rparr>)]]\<rparr>)
     [(''0'', \<lparr>url_of = ''http://h/s0.ts'', md5_of = ''md5:3''\<rparr>),
        (''1'', \<lparr>url_of = ''http://h/s1.ts'', md5_of = ''md5:5''\<rparr>)]
     ''out'' (enumerate 0 [''http://h/s0.ts'', ''http://h/s1.ts'', ''http://h/s2.ts'', ''http://h/s3.ts'']) ([], [])
   = ([(0, ''out/segment_00000.ts'')],
      [(1, ''http://h/s1.ts'', ''out/segment_00001.ts''), (2, ''http://h/s2.ts'', ''out/segment_00002.ts''),
      (3, ''http://h/s3.ts'', ''out/segment_00003.ts'')])"
    by (simp add: scheduler_defs)
  have k: "result_loop (\<lambda>content. ''md5:'' @ str (length content))
     (\<lambda>u. if u = ''http://h/s1.ts'' then RequestException else Response 200 (Length 2) (Chunk [1, 2] End))
     [''http://h/s0.ts'', ''http://h/s1.ts'', ''http://h/s2.ts'', ''http://h/s3.ts''] ''out''
     (take 1 (as_completed [2, 0]
     [(1, ''http://h/s1.ts'', ''out/segment_00001.ts''), (2, ''http://h/s2.ts'', ''out/segment_00002.ts''),
      (3, ''http://h/s3.ts'', ''out/segment_00003.ts'')]))
     (files_of \<lparr>files_of = [''out/segment_00000.ts'' \<mapsto> [1, 2, 3]],
      documents_of = [''out/segment_info.json'' \<mapsto> Document
       [(''0'', \<lparr>url_of = ''http://h/s0.ts'', md5_of = ''md5:3''\<rparr>),
        (''1'', \<lparr>url_of = ''http://h/s1.ts'', md5_of = ''md5:5''\<rparr>)]]\<rparr>,
      [(0, ''out/segment_00000.ts'')],
       [(''0'', \<lparr>url_of = ''http://h/s0.ts'', md5_of = ''md5:3''\<rparr>),
        (''1'', \<lparr>url_of = ''http://h/s1.ts'', md5_of = ''md5:5''\<rparr>)])
   = ([''out/segment_00000.ts'' \<mapsto> [1, 2, 3], ''out/segment_00003.ts'' \<mapsto> [1, 2]],
      [(0, ''out/segment_00000.ts''), (3, ''out/segment_00003.ts'')],
      [(''0'', \<lparr>url_of = ''http://h/s0.ts'', md5_of = ''md5:3''\<rparr>),
        (''1'', \<lparr>url_of = ''http://h/s1.ts'', md5_of = ''md5:5''\<rparr>),
        (''3'', \<lparr>url_of = ''http://h/s3.ts'', md5_of = ''md5:2''\<rparr>)])"
    by (simp add: scheduler_defs)
  have e: "download_segments_in_parallel (\<lambda>content. ''md5:'' @ str (length content))
     (\<lambda>u. if u = ''http://h/s1.ts'' then RequestException else Response 200 (Length 2) (Chunk [1, 2] End))
     [2, 0]
     \<lparr>files_of = [''out/segment_00000.ts'' \<mapsto> [1, 2, 3]],
      documents_of = [''out/segment_info.json'' \<mapsto> Document
       [(''0'', \<lparr>url_of = ''http://h/s0.ts'', md5_of = ''md5:3''\<rparr>),
        (''1'', \<lparr>url_of = ''http://h/s1.ts'', md5_of = ''md5:5''\<rparr>)]]\<rparr>
     [''http://h/s0.ts'', ''http://h/s1.ts'', ''http://h/s2.ts'', ''http://h/s3.ts''] ''out'' 8
   = Inr ([(0, ''out/segment_00000.ts''), (2, ''out/segment_00002.ts''), (3, ''out/segment_00003.ts'')],
     \<lparr>files_of = [''out/segment_00000.ts'' \<mapsto> [1, 2, 3], ''out/segment_00003.ts'' \<mapsto> [1, 2], ''out/segment_00002.ts'' \<mapsto> [1, 2]],
      documents_of = [''out/segment_info.json'' \<mapsto> Document
       [(''0'', \<lparr>url_of = ''http://h/s0.ts'', md5_of = ''md5:3''\<rparr>),
        (''1'', \<lparr>url_of = ''http://h/s1.ts'', md5_of = ''md5:5''\<rparr>),
        (''3'', \<lparr>url_of = ''http://h/s3.ts'', md5_of = ''md5:2''\<rparr>),
        (''2'', \<lparr>url_of = ''http://h/s2.ts'', md5_of = ''md5:2''\<rparr>)]]\<rparr>)"
    by (simp add: scheduler_defs)
  have "str 0 \<in> str ` {0..<length [''http://h/s0.ts'', ''http://h/s1.ts'', ''http://h/s2.ts'', ''http://h/s3.ts'']}" and "str 1 \<in> str ` {0..<length [''http://h/s0.ts'', ''http://h/s1.ts'', ''http://h/s2.ts'', ''http://h/s3.ts'']}"
    by (rule imageI, simp)+
  then have i: "fst ` set [(''0'', \<lparr>url_of = ''http://h/s0.ts'', md5_of = ''md5:3''\<rparr>),
        (''1'', \<lparr>url_of = ''http://h/s1.ts'', md5_of = ''md5:5''\<rparr>)]
       \<subseteq> str ` {0..<length [''http://h/s0.ts'', ''http://h/s1.ts'', ''http://h/s2.ts'', ''http://h/s3.ts'']}"
    by (simp add: str.simps digit_char_def)
  obtain persisted where p: "documents_of
     \<lparr>files_of = [''out/segment_00000.ts'' \<mapsto> [1, 2, 3], ''out/segment_00003.ts'' \<mapsto> [1, 2], ''out/segment_00002.ts'' \<mapsto> [1, 2]],
      documents_of = [''out/segment_info.json'' \<mapsto> Document
       [(''0'', \<lparr>url_of = ''http://h/s0.ts'', md5_of = ''md5:3''\<rparr>),
        (''1'', \<lparr>url_of = ''http://h/s1.ts'', md5_of = ''md5:5''\<rparr>),
        (''3'', \<lparr>url_of = ''http://h/s3.ts'', md5_of = ''md5:2''\<rparr>),
        (''2'', \<lparr>url_of = ''http://h/s2.ts'', md5_of = ''md5:2''\<rparr>)]]\<rparr>
     (path_join ''out'' ''segment_info.json'') = Some (Document persisted)"
    and q: "fst ` set [(''0'', \<lparr>url_of = ''http://h/s0.ts'', md5_of = ''md5:3''\<rparr>),
        (''1'', \<lparr>url_of = ''http://h/s1.ts'', md5_of = ''md5:5''\<rparr>)]
       \<subseteq> str ` {0..<length [''http://h/s0.ts'', ''http://h/s1.ts'', ''http://h/s2.ts'', ''http://h/s3.ts'']}
      \<longrightarrow> fst ` set [(''0'', \<lparr>url_of = ''http://h/s0.ts'', md5_of = ''md5:3''\<rparr>),
        (''1'', \<lparr>url_of = ''http://h/s1.ts'', md5_of = ''md5:5''\<rparr>),
        (''3'', \<lparr>url_of = ''http://h/s3.ts'', md5_of = ''md5:2''\<rparr>)]
       \<subseteq> str ` {0..<length [''http://h/s0.ts'', ''http://h/s1.ts'', ''http://h/s2.ts'', ''http://h/s3.ts'']}
        \<and> fst ` set persisted \<subseteq> str ` {0..<length [''http://h/s0.ts'', ''http://h/s1.ts'', ''http://h/s2.ts'', ''http://h/s3.ts'']}"
    using ledger_keys_within_loaded_and_range [OF l s k e] by (elim exE conjE) (rule that)
  have "persisted = [(''0'', \<lparr>url_of = ''http://h/s0.ts'', md5_of = ''md5:3''\<rparr>),
        (''1'', \<lparr>url_of = ''http://h/s1.ts'', md5_of = ''md5:5''\<rparr>),
        (''3'', \<lparr>url_of = ''http://h/s3.ts'', md5_of = ''md5:2''\<rparr>),
        (''2'', \<lparr>url_of = ''http://h/s2.ts'', md5_of = ''md5:2''\<rparr>)]"
    using p by (simp add: path_join_def endswith_def)
  then show ?thesis
    using l s k e i q by simp
qed

text \<open>
  C10. The scheduler never removes a ledger entry: the ledger document persisted at
  batch end has every key of the ledger loaded at the start. A key outside the index
  range of the current list of locators keeps its entry, and so does the key of a
  segment that is not in the list returned (its fetch failed this run) and the key
  of a segment taken as already done; only the entry of a segment fetched
  successfully this run is written anew.
\<close>

theorem ledger_entries_never_removed:
  assumes "load_segment_info d (path_join output_dir ''segment_info.json'') = Inr loaded"
    and "download_segments_in_parallel H net sched d segments output_dir num_threads = Inr (result, d')"
  shows "\<exists>persisted.
           documents_of d' (path_join output_dir ''segment_info.json'') = Some (Document persisted)
         \<and> fst ` set loaded \<subseteq> fst ` set persisted
         \<and> (\<forall>key. key \<notin> str ` {0..<length segments} \<longrightarrow> map_of persisted key = map_of loaded key)
         \<and> (\<forall>i. i \<notin> fst ` set result \<longrightarrow> map_of persisted (str i) = map_of loaded (str i))
         \<and> (\<forall>i. already_done H (files_of d) loaded output_dir i \<longrightarrow>
               map_of persisted (str i) = map_of loaded (str i))"
proof -
  obtain loaded' ok persisted fls' where
    l: "load_segment_info d (path_join output_dir ''segment_info.json'') = Inr loaded'"
    and r: "result = sort_key fst (map (\<lambda>i. (i, segment_path output_dir i))
        (filter (already_done H (files_of d) loaded' output_dir) [0..<length segments] @ ok))"
    and ok: "mset ok \<subseteq># mset (filter (\<lambda>i. \<not> already_done H (files_of d) loaded' output_dir i) [0..<length segments])"
    and d': "d' = d\<lparr>files_of := fls',
             documents_of := (documents_of d)(path_join output_dir ''segment_info.json'' \<mapsto> Document persisted)\<rparr>"
    and p: "fst ` set persisted = fst ` set loaded' \<union> str ` set ok"
    and u: "\<forall>k. k \<notin> str ` set ok \<longrightarrow> map_of persisted k = map_of loaded' k"
    using download_segments_in_parallel_shape [OF assms(2)] by (elim exE conjE) (rule that)
  have e: "loaded' = loaded" using l assms(1) by simp
  have s: "set ok \<subseteq> {i. i < length segments \<and> \<not> already_done H (files_of d) loaded output_dir i}"
    using set_mset_mono [OF ok] e by auto
  have m: "map fst (map (\<lambda>i. (i, segment_path output_dir i))
               (filter (already_done H (files_of d) loaded' output_dir) [0..<length segments] @ ok))
           = filter (already_done H (files_of d) loaded' output_dir) [0..<length segments] @ ok"
    by (simp add: comp_def)
  have "mset (map fst result) = mset (map fst (map (\<lambda>i. (i, segment_path output_dir i))
               (filter (already_done H (files_of d) loaded' output_dir) [0..<length segments] @ ok)))"
    by (simp only: r mset_map mset_sort)
  from mset_eq_setD [OF this] have "set ok \<subseteq> fst ` set result"
    unfolding m by auto
  then have n: "str i \<notin> str ` set ok" if "i \<notin> fst ` set result" for i
    using that str_inj by blast
  have o: "key \<notin> str ` set ok" if "key \<notin> str ` {0..<length segments}" for key
    using that s by auto
  have q: "str i \<notin> str ` set ok" if "already_done H (files_of d) loaded output_dir i" for i
    using that s str_inj by blast
  have c: "documents_of d' (path_join output_dir ''segment_info.json'') = Some (Document persisted)"
    using d' by simp
  show ?thesis
  proof (rule exI [of _ persisted], intro conjI allI impI)
    show "documents_of d' (path_join output_dir ''segment_info.json'') = Some (Document persisted)"
      by (rule c)
    show "fst ` set loaded \<subseteq> fst ` set persisted"
      unfolding p e by (rule Un_upper1)
    show "map_of persisted key = map_of loaded key" if "key \<notin> str ` {0..<length segments}" for key
      using u o [OF that] e by simp
    show "map_of persisted (str i) = map_of loaded (str i)" if "i \<notin> fst ` set result" for i
      using u n [OF that] e by simp
    show "map_of persisted (str i) = map_of loaded (str i)"
      if "already_done H (files_of d) loaded output_dir i" for i
      using u q [OF that] e by simp
  qed
qed

theorem ledger_entries_never_removed_witness:
  "load_segment_info
     \<lparr>files_of = [''out/segment_00000.ts'' \<mapsto> [1, 2, 3]],
      documents_of = [''out/segment_info.json'' \<mapsto> Document
       [(''0'', \<lparr>url_of = ''http://h/s0.ts'', md5_of = ''md5:3''\<rparr>),
        (''1'', \<lparr>url_of = ''http://h/s1.ts'', md5_of = ''md5:5''\<rparr>),
        (''7'', \<lparr>url_of = ''http://h/s7.ts'', md5_of = ''md5:9''\<rparr>)]]\<rparr>
     (path_join ''out'' ''segment_info.json'')
   = Inr [(''0'', \<lparr>url_of = ''http://h/s0.ts'', md5_of = ''md5:3''\<rparr>),
        (''1'', \<lparr>url_of = ''http://h/s1.ts'', md5_of = ''md5:5''\<rparr>),
        (''7'', \<lparr>url_of = ''http://h/s7.ts'', md5_of = ''md5:9''\<rparr>)]
   \<and> download_segments_in_parallel (\<lambda>content. ''md5:'' @ str (length content))
     (\<lambda>u. if u = ''http://h/s1.ts'' then RequestException else Response 200 (Length 2) (Chunk [1, 2] End))
     [2, 0]
     \<lparr>files_of = [''out/segment_00000.ts'' \<mapsto> [1, 2, 3]],
      documents_of = [''out/segment_info.json'' \<mapsto> Document
       [(''0'', \<lparr>url_of = ''http://h/s0.ts'', md5_of = ''md5:3''\<rparr>),
        (''1'', \<lparr>url_of = ''http://h/s1.ts'', md5_of = ''md5:5''\<rparr>),
        (''7'', \<lparr>url_of = ''http://h/s7.ts'', md5_of = ''md5:9''\<rparr>)]]\<rparr>
     [''http://h/s0.ts'', ''http://h/s1.ts'', ''http://h/s2.ts'', ''http://h/s3.ts''] ''out'' 8
   = Inr ([(0, ''out/segment_00000.ts''), (2, ''out/segment_00002.ts''), (3, ''out/segment_00003.ts'')],
     \<lparr>files_of = [''out/segment_00000.ts'' \<mapsto> [1, 2, 3], ''out/segment_00003.ts'' \<mapsto> [1, 2], ''out/segment_00002.ts'' \<mapsto> [1, 2]],
      documents_of = [''out/segment_info.json'' \<mapsto> Document
       [(''0'', \<lparr>url_of = ''http://h/s0.ts'', md5_of = ''md5:3''\<rparr>),
        (''1'', \<lparr>url_of = ''http://h/s1.ts'', md5_of = ''md5:5''\<rparr>),
        (''7'', \<lparr>url_of = ''http://h/s7.ts'', md5_of = ''md5:9''\<rparr>),
        (''3'', \<lparr>url_of = ''http://h/s3.ts'', md5_of = ''md5:2''\<rparr>),
        (''2'', \<lparr>url_of = ''http://h/s2.ts'', md5_of = ''md5:2''\<rparr>)]]\<rparr>)
   \<and> fst ` set [(''0'', \<lparr>url_of = ''http://h/s0.ts'', md5_of = ''md5:3''\<rparr>),
        (''1'', \<lparr>url_of = ''http://h/s1.ts'', md5_of = ''md5:5''\<rparr>),
        (''7'', \<lparr>url_of = ''http://h/s7.ts'', md5_of = ''md5:9''\<rparr>)]
       \<subseteq> fst ` set [(''0'', \<lparr>url_of = ''http://h/s0.ts'', md5_of = ''md5:3''\<rparr>),
        (''1'', \<lparr>url_of = ''http://h/s1.ts'', md5_of = ''md5:5''\<rparr>),
        (''7'', \<lparr>url_of = ''http://h/s7.ts'', md5_of = ''md5:9''\<rparr>),
        (''3'', \<lparr>url_of = ''http://h/s3.ts'', md5_of = ''md5:2''\<rparr>),
        (''2'', \<lparr>url_of = ''http://h/s2.ts'', md5_of = ''md5:2''\<rparr>)]
   \<and> ''7'' \<notin> str ` {0..<length [''http://h/s0.ts'', ''http://h/s1.ts'', ''http://h/s2.ts'', ''http://h/s3.ts'']}
   \<and> map_of [(''0'', \<lparr>url_of = ''http://h/s0.ts'', md5_of = ''md5:3''\<rparr>),
        (''1'', \<lparr>url_of = ''http://h/s1.ts'', md5_of = ''md5:5''\<rparr>),
        (''7'', \<lparr>url_of = ''http://h/s7.ts'', md5_of = ''md5:9''\<rparr>),
        (''3'', \<lparr>url_of = ''http://h/s3.ts'', md5_of = ''md5:2''\<rparr>),
        (''2'', \<lparr>url_of = ''http://h/s2.ts'', md5_of = ''md5:2''\<rparr>)] ''7''
       = map_of [(''0'', \<lparr>url_of = ''http://h/s0.ts'', md5_of = ''md5:3''\<rparr>),
        (''1'', \<lparr>url_of = ''http://h/s1.ts'', md5_of = ''md5:5''\<rparr>),
        (''7'', \<lparr>url_of = ''http://h/s7.ts'', md5_of = ''md5:9''\<rparr>)] ''7''
   \<and> (1 :: nat) \<notin> fst ` set [(0 :: nat, ''out/segment_00000.ts''), (2, ''out/segment_00002.ts''), (3, ''out/segment_00003.ts'')]
   \<and> map_of [(''0'', \<lparr>url_of = ''http://h/s0.ts'', md5_of = ''md5:3''\<rparr>),
        (''1'', \<lparr>url_of = ''http://h/s1.ts'', md5_of = ''md5:5''\<rparr>),
        (''7'', \<lparr>url_of = ''http://h/s7.ts'', md5_of = ''md5:9''\<rparr>),
        (''3'', \<lparr>url_of = ''http://h/s3.ts'', md5_of = ''md5:2''\<rparr>),
        (''2'', \<lparr>url_of = ''http://h/s2.ts'', md5_of = ''md5:2''\<rparr>)] (str 1)
       = map_of [(''0'', \<lparr>url_of = ''http://h/s0.ts'', md5_of = ''md5:3''\<rparr>),
        (''1'', \<lparr>url_of = ''http://h/s1.ts'', md5_of = ''md5:5''\<rparr>),
        (''7'', \<lparr>url_of = ''http://h/s7.ts'', md5_of = ''md5:9''\<rparr>)] (str 1)"
proof -
  have l: "load_segment_info
     \<lparr>files_of = [''out/segment_00000.ts'' \<mapsto> [1, 2, 3]],
      documents_of = [''out/segment_info.json'' \<mapsto> Document
       [(''0'', \<lparr>url_of = ''http://h/s0.ts'', md5_of = ''md5:3''\<rparr>),
        (''1'', \<lparr>url_of = ''http://h/s1.ts'', md5_of = ''md5:5''\<rparr>),
        (''7'', \<lparr>url_of = ''http://h/s7.ts'', md5_of = ''md5:9''\<rparr>)]]\<rparr>
     (path_join ''out'' ''segment_info.json'')
   = Inr [(''0'', \<lparr>url_of = ''http://h/s0.ts'', md5_of = ''md5:3''\<rparr>),
        (''1'', \<lparr>url_of = ''http://h/s1.ts'', md5_of = ''md5:5''\<rparr>),
        (''7'', \<lparr>url_of = ''http://h/s7.ts'', md5_of = ''md5:9''\<rparr>)]"
    by (simp add: scheduler_defs)
  have "str 7 \<notin> str ` {0..<length [''http://h/s0.ts'', ''http://h/s1.ts'', ''http://h/s2.ts'', ''http://h/s3.ts'']}"
    by (rule str_outside_range) simp
  then have o: "''7'' \<notin> str ` {0..<length [''http://h/s0.ts'', ''http://h/s1.ts'', ''http://h/s2.ts'', ''http://h/s3.ts'']}"
    by (simp add: str.simps digit_char_def)
  note t = ledger_entries_never_removed [OF l example_run]
  show ?thesis
    using t l example_run o by (simp add: str.simps digit_char_def)
qed

end
